theory Spec2Isabelle
  imports Complex_Main "HOL-Library.AList" "HOL-Library.Sublist"
begin

section \<open>The clone orchestrator (librarian\_background/create\_clone.py)\<close>

text \<open>
  The task \<open>CreateClone\<close> reads and writes the librarian database through the ORM
  classes \<open>StoreMetadata\<close>, \<open>Instance\<close> and \<open>CloneTransfer\<close> and moves bytes through the
  store managers. The database tables are lists of rows; an ORM object held by the task is
  the row at a fixed position of its table. Time stamps are seconds on the real line.
\<close>

datatype Path = Path string

datatype TransferStatus = PENDING | STAGED | COMPLETED | FAILED

record OrmFile =
  orm_file_name :: string
  orm_file_size :: nat

record StoreMetadata =
  store_id :: nat
  store_name :: string
  transfer_managers :: "string list"
    \<comment> \<open>the keys of the dict \<open>transfer_managers\<close>, in the order \<open>items()\<close> yields them\<close>

record Instance =
  instance_id :: nat
  path :: string
  instance_file :: OrmFile
  store :: nat  \<comment> \<open>the id of the store the instance lives on\<close>
  deletion_policy :: string
  created_time :: real

record CloneTransfer =
  transfer_id :: nat
  source_store_id :: nat
  destination_store_id :: nat
  source_instance_id :: nat
  destination_instance_id :: "nat option"
  transfer_manager_name :: "string option"
  status :: TransferStatus
  start_time :: real
  end_time :: "real option"

text \<open>
  The calls made on the store managers, in the order they are made. What a store manager
  answers may depend on everything that was asked of the stores before, so each answer
  below is a function of the calls made so far.
\<close>

datatype StoreCall =
    Stage nat nat string            \<comment> \<open>store, \<open>file_size\<close>, \<open>file_name\<close>\<close>
  | TransferOut nat Path Path string  \<comment> \<open>store, \<open>store_path\<close>, \<open>destination_path\<close>, \<open>using\<close>\<close>
  | Commit nat Path Path            \<comment> \<open>store, \<open>staging_path\<close>, \<open>store_path\<close>\<close>
  | Unstage nat string              \<comment> \<open>store, staging name\<close>

record StoreEnv =
  stage :: "StoreCall list \<Rightarrow> nat \<Rightarrow> nat \<Rightarrow> string \<Rightarrow> (string \<times> Path) option"
    \<comment> \<open>\<open>None\<close>: \<open>ValueError\<close>, the file does not fit\<close>
  transfer_out :: "StoreCall list \<Rightarrow> nat \<Rightarrow> Path \<Rightarrow> Path \<Rightarrow> string \<Rightarrow> bool option"
    \<comment> \<open>\<open>None\<close>: \<open>FileNotFoundError\<close>\<close>
  commit :: "StoreCall list \<Rightarrow> nat \<Rightarrow> Path \<Rightarrow> Path \<Rightarrow> bool"
    \<comment> \<open>\<open>False\<close>: \<open>FileExistsError\<close>\<close>
  datetime_now :: "StoreCall list \<Rightarrow> real"

datatype CloneLog =
    LogStoreDoesNotExist string
  | LogAlreadyExists
  | LogTooLarge string
  | LogManagerFailed string string
  | LogSourceMissing string
  | LogTransferFailed string
  | LogCommitExists string
  | LogSummary nat nat nat  \<comment> \<open>successful, unnecessary, \<open>len(instances)\<close>\<close>

record CloneState =
  stores :: "StoreMetadata list"
  instances :: "Instance list"
  transfers :: "CloneTransfer list"
  calls :: "StoreCall list"
  logs :: "CloneLog list"

record CreateClone =
  clone_from :: string
  clone_to :: string
  age_in_days :: int

definition fresh_id :: "nat list \<Rightarrow> nat" where
  "fresh_id ids = Suc (fold max ids 0)"

text \<open>
  Modelled from the spec: \<open>CloneTransfer.new_transfer\<close> is not among the sources; the
  spec has the new row in state PENDING, with no destination instance and no transfer
  manager yet.
\<close>

definition new_transfer :: "real \<Rightarrow> nat \<Rightarrow> nat \<Rightarrow> nat \<Rightarrow> CloneTransfer" where
  "new_transfer now src dst inst =
     \<lparr>transfer_id = 0, source_store_id = src, destination_store_id = dst,
      source_instance_id = inst, destination_instance_id = None,
      transfer_manager_name = None, status = PENDING, start_time = now, end_time = None\<rparr>"

text \<open>
  Modelled from the spec: \<open>CloneTransfer.fail_transfer\<close> is not among the sources; the
  spec has it mark the transfer FAILED.
\<close>

definition fail_transfer :: "CloneTransfer \<Rightarrow> CloneTransfer" where
  "fail_transfer t = t\<lparr>status := FAILED\<rparr>"

text \<open>
  Modelled from the spec: \<open>Instance.new_instance\<close> is not among the sources; the spec
  has a new Instance record with the given path, file, store and deletion policy, and a
  creation time.
\<close>

definition new_instance :: "real \<Rightarrow> string \<Rightarrow> OrmFile \<Rightarrow> nat \<Rightarrow> string \<Rightarrow> Instance" where
  "new_instance now p f s d =
     \<lparr>instance_id = 0, path = p, instance_file = f, store = s, deletion_policy = d,
      created_time = now\<rparr>"

definition get_store :: "CloneState \<Rightarrow> string \<Rightarrow> StoreMetadata option" where
  "get_store st nm = find (\<lambda>s. store_name s = nm) (stores st)"

definition on_transfer :: "nat \<Rightarrow> (CloneTransfer \<Rightarrow> CloneTransfer) \<Rightarrow> CloneState \<Rightarrow> CloneState" where
  "on_transfer k f st = st\<lparr>transfers := (transfers st)[k := f (transfers st ! k)]\<rparr>"

definition do_call :: "StoreCall \<Rightarrow> CloneState \<Rightarrow> CloneState" where
  "do_call c st = st\<lparr>calls := calls st @ [c]\<rparr>"

definition do_log :: "CloneLog \<Rightarrow> CloneState \<Rightarrow> CloneState" where
  "do_log l st = st\<lparr>logs := logs st @ [l]\<rparr>"

text \<open>
  The loop over \<open>store_to.transfer_managers.items()\<close> (lines 121 to 144). The loop
  variables \<open>success\<close> and \<open>tm_name\<close> live on after the loop; \<open>k\<close> is the row of the
  transfer. Every branch of the body ends the iteration and goes on to the next manager.
\<close>

fun transfer_loop ::
  "StoreEnv \<Rightarrow> StoreMetadata \<Rightarrow> StoreMetadata \<Rightarrow> Instance \<Rightarrow> Path \<Rightarrow> nat \<Rightarrow> string list \<Rightarrow>
   bool \<times> string option \<times> CloneState \<Rightarrow> bool \<times> string option \<times> CloneState" where
  "transfer_loop env store_from store_to inst staged_path k [] acc = acc"
| "transfer_loop env store_from store_to inst staged_path k (tm # tms) (success, tm_name, st) =
     (let st1 = do_call (TransferOut (store_id store_from) (Path (path inst)) staged_path tm) st in
      case transfer_out env (calls st) (store_id store_from) (Path (path inst)) staged_path tm of
        None \<Rightarrow>
          transfer_loop env store_from store_to inst staged_path k tms
            (success, Some tm,
             on_transfer k fail_transfer (do_log (LogSourceMissing (path inst)) st1))
      | Some success' \<Rightarrow>
          if \<not> success' then
            transfer_loop env store_from store_to inst staged_path k tms
              (success', Some tm,
               on_transfer k fail_transfer (do_log (LogManagerFailed (path inst) tm) st1))
          else
            transfer_loop env store_from store_to inst staged_path k tms (success', Some tm, st1))"

datatype CloneOutcome = Unnecessary | Failed | Cloned

text \<open>The body of the loop over the selected instances (lines 80 to 195).\<close>

definition clone_instance ::
  "StoreEnv \<Rightarrow> StoreMetadata \<Rightarrow> StoreMetadata \<Rightarrow> Instance \<Rightarrow> CloneState \<Rightarrow> CloneOutcome \<times> CloneState" where
  "clone_instance env store_from store_to inst st =
     (if find (\<lambda>i. store i = store_id store_to \<and> orm_file_name (instance_file i) = orm_file_name (instance_file inst))
           (instances st) \<noteq> None
      then (Unnecessary, do_log LogAlreadyExists st)
      else
        let k = length (transfers st);
            transfer = (new_transfer (datetime_now env (calls st)) (store_id store_from)
                          (store_id store_to) (instance_id inst))
                       \<lparr>transfer_id := fresh_id (map transfer_id (transfers st))\<rparr>;
            st = st\<lparr>transfers := transfers st @ [transfer]\<rparr>
        in
        case stage env (calls st) (store_id store_to) (orm_file_size (instance_file inst))
               (orm_file_name (instance_file inst)) of
          None \<Rightarrow>
            (Failed,
             on_transfer k fail_transfer
               (do_log (LogTooLarge (orm_file_name (instance_file inst)))
                  (do_call (Stage (store_id store_to) (orm_file_size (instance_file inst))
                              (orm_file_name (instance_file inst))) st)))
        | Some (staging_name, staged_path) \<Rightarrow>
            let st = do_call (Stage (store_id store_to) (orm_file_size (instance_file inst))
                                (orm_file_name (instance_file inst))) st;
                (success, tm_name, st) =
                   transfer_loop env store_from store_to inst staged_path k
                     (transfer_managers store_to) (False, None, st)
            in
            if \<not> success then
              (Failed, on_transfer k fail_transfer (do_log (LogTransferFailed (path inst)) st))
            else
              let st = on_transfer k
                         (\<lambda>t. t\<lparr>transfer_manager_name := tm_name, status := STAGED\<rparr>) st;
                  committed = commit env (calls st) (store_id store_to) staged_path
                                (Path (orm_file_name (instance_file inst)));
                  st = do_call (Commit (store_id store_to) staged_path
                                  (Path (orm_file_name (instance_file inst)))) st
              in
              if \<not> committed then
                (Failed,
                 on_transfer k fail_transfer
                   (do_call (Unstage (store_id store_to) staging_name)
                      (do_log (LogCommitExists (path inst)) st)))
              else
                let st = do_call (Unstage (store_id store_to) staging_name) st;
                    new_inst = (new_instance (datetime_now env (calls st)) (path inst) (instance_file inst)
                                  (store_id store_to) (deletion_policy inst))
                               \<lparr>instance_id := fresh_id (map instance_id (instances st))\<rparr>;
                    st = st\<lparr>instances := instances st @ [new_inst]\<rparr>;
                    st = on_transfer k
                           (\<lambda>t. t\<lparr>destination_instance_id := Some (instance_id new_inst),
                                  status := COMPLETED,
                                  end_time := Some (datetime_now env (calls st))\<rparr>) st
                in (Cloned, st))"

text \<open>
  The loop over the selected instances, with its two counters \<open>successful_clones\<close> and
  \<open>unnecessary_clones\<close>.
\<close>

fun clone_loop ::
  "StoreEnv \<Rightarrow> StoreMetadata \<Rightarrow> StoreMetadata \<Rightarrow> Instance list \<Rightarrow> nat \<times> nat \<times> CloneState \<Rightarrow>
   nat \<times> nat \<times> CloneState" where
  "clone_loop env store_from store_to [] acc = acc"
| "clone_loop env store_from store_to (inst # rest) (successful_clones, unnecessary_clones, st) =
     (case clone_instance env store_from store_to inst st of
        (Unnecessary, st') \<Rightarrow>
          clone_loop env store_from store_to rest (successful_clones, unnecessary_clones + 1, st')
      | (Failed, st') \<Rightarrow>
          clone_loop env store_from store_to rest (successful_clones, unnecessary_clones, st')
      | (Cloned, st') \<Rightarrow>
          clone_loop env store_from store_to rest (successful_clones + 1, unnecessary_clones, st'))"

datatype OnCallResult = CancelJob | Returned

definition timedelta_days :: "int \<Rightarrow> real" where
  "timedelta_days d = 86400 * real_of_int d"

definition selected_instances :: "StoreEnv \<Rightarrow> CreateClone \<Rightarrow> StoreMetadata \<Rightarrow> CloneState \<Rightarrow> Instance list" where
  "selected_instances env self store_from st =
     (let start_time = datetime_now env (calls st) - timedelta_days (age_in_days self)
      in filter (\<lambda>i. store i = store_id store_from \<and> created_time i > start_time) (instances st))"

definition on_call :: "StoreEnv \<Rightarrow> CreateClone \<Rightarrow> CloneState \<Rightarrow> OnCallResult \<times> CloneState" where
  "on_call env self st =
     (case get_store st (clone_from self) of
        None \<Rightarrow> (CancelJob, do_log (LogStoreDoesNotExist (clone_from self)) st)
      | Some store_from \<Rightarrow>
          (case get_store st (clone_to self) of
             None \<Rightarrow> (CancelJob, do_log (LogStoreDoesNotExist (clone_to self)) st)
           | Some store_to \<Rightarrow>
               let insts = selected_instances env self store_from st;
                   (successful_clones, unnecessary_clones, st') =
                      clone_loop env store_from store_to insts (0, 0, st)
               in (Returned,
                   do_log (LogSummary successful_clones unnecessary_clones (length insts)) st')))"

subsection \<open>Notions used to state the properties of a run\<close>

text \<open>An instance of the same file as \<open>inst\<close> exists on the destination store.\<close>

definition has_clone :: "StoreMetadata \<Rightarrow> Instance \<Rightarrow> CloneState \<Rightarrow> bool" where
  "has_clone store_to inst st =
     (\<exists>i \<in> set (instances st). store i = store_id store_to \<and>
        orm_file_name (instance_file i) = orm_file_name (instance_file inst))"

definition terminal :: "CloneTransfer \<Rightarrow> bool" where
  "terminal t = (status t = COMPLETED \<or> status t = FAILED)"

text \<open>
  The instance \<open>n\<close> records a clone of the instance \<open>i\<close> on the destination store, and
  the calls \<open>cs\<close> hold the commit of its bytes under the bare file name.
\<close>

definition clone_of :: "StoreMetadata \<Rightarrow> StoreCall list \<Rightarrow> Instance \<Rightarrow> Instance \<Rightarrow> bool" where
  "clone_of store_to cs i n =
     (path n = path i \<and> instance_file n = instance_file i \<and> store n = store_id store_to \<and>
      deletion_policy n = deletion_policy i \<and>
      (\<exists>sp. Commit (store_id store_to) sp (Path (orm_file_name (instance_file i))) \<in> set cs))"

text \<open>
  The transfer row \<open>t\<close> records the completed clone of the instance \<open>i\<close> of the source
  store as the instance \<open>n\<close> of the destination store.
\<close>

definition transfer_of ::
  "StoreMetadata \<Rightarrow> StoreMetadata \<Rightarrow> Instance \<Rightarrow> Instance \<Rightarrow> CloneTransfer \<Rightarrow> bool" where
  "transfer_of store_from store_to i n t =
     (status t = COMPLETED \<and> source_store_id t = store_id store_from \<and>
      destination_store_id t = store_id store_to \<and> source_instance_id t = instance_id i \<and>
      destination_instance_id t = Some (instance_id n))"

subsection \<open>A small librarian: two stores, one file\<close>

text \<open>
  Store A holds one instance of the file F, store B is empty and has two transfer
  managers. The stores answer as \<open>ex_env\<close> says: staging succeeds when \<open>fits\<close>, and a
  transfer manager answers what \<open>answer\<close> gives for its name.
\<close>

definition ex_store_A :: StoreMetadata where
  "ex_store_A = \<lparr>store_id = 1, store_name = ''A'', transfer_managers = [''local'']\<rparr>"

definition ex_store_B :: StoreMetadata where
  "ex_store_B = \<lparr>store_id = 2, store_name = ''B'', transfer_managers = [''local'', ''rsync'']\<rparr>"

definition ex_instance :: Instance where
  "ex_instance = \<lparr>instance_id = 1, path = ''2459000/F'',
     instance_file = \<lparr>orm_file_name = ''F'', orm_file_size = 10\<rparr>, store = 1,
     deletion_policy = ''DISALLOWED'', created_time = 1000\<rparr>"

definition ex_state :: CloneState where
  "ex_state = \<lparr>stores = [ex_store_A, ex_store_B], instances = [ex_instance], transfers = [],
     calls = [], logs = []\<rparr>"

definition ex_task :: CreateClone where
  "ex_task = \<lparr>clone_from = ''A'', clone_to = ''B'', age_in_days = 1\<rparr>"

definition ex_env :: "bool \<Rightarrow> (string \<Rightarrow> bool option) \<Rightarrow> StoreEnv" where
  "ex_env fits answer =
     \<lparr>stage = (\<lambda>cs s sz nm. if fits then Some (''stage-1'', Path ''/staging/stage-1/F'') else None),
      transfer_out = (\<lambda>cs s p d tm. answer tm),
      commit = (\<lambda>cs s p d. True),
      datetime_now = (\<lambda>cs. 2000)\<rparr>"

text \<open>
  The state in which the loop over the transfer managers starts in a run from \<open>ex_state\<close>:
  the PENDING transfer is row 0, and staging has been asked for.
\<close>

definition ex_staged :: CloneState where
  "ex_staged = ex_state\<lparr>transfers := [(new_transfer 2000 1 2 1)\<lparr>transfer_id := 1\<rparr>],
     calls := [Stage 2 10 ''F'']\<rparr>"

section \<open>Searches and standing orders (server/librarian\_server/search.py)\<close>

subsection \<open>Search data and compiled expressions\<close>

text \<open>
  A search is JSON text. The parsed value, as \<open>json.loads\<close> gives it, is a \<open>json\<close>; a
  dict is the list of its items in iteration order. Floats are taken as reals.
\<close>

datatype json =
    JNull | JBool bool | JInt int | JFloat real | JStr string
  | JList "json list" | JDict "(string \<times> json) list"

text \<open>\<open>payload.__class__.__name__\<close>\<close>

fun class_name :: "json \<Rightarrow> string" where
  "class_name JNull = ''NoneType''"
| "class_name (JBool b) = ''bool''"
| "class_name (JInt n) = ''int''"
| "class_name (JFloat x) = ''float''"
| "class_name (JStr s) = ''unicode''"
| "class_name (JList xs) = ''list''"
| "class_name (JDict kvs) = ''dict''"

text \<open>
  \<open>isinstance(payload, unicode)\<close>, \<open>isinstance(payload, int)\<close> and
  \<open>isinstance(payload, (int, float))\<close>; a Python \<open>bool\<close> is an \<open>int\<close>.
\<close>

fun is_unicode :: "json \<Rightarrow> bool" where
  "is_unicode (JStr s) = True"
| "is_unicode j = False"

fun is_int :: "json \<Rightarrow> bool" where
  "is_int (JInt n) = True"
| "is_int (JBool b) = True"
| "is_int j = False"

fun is_num :: "json \<Rightarrow> bool" where
  "is_num (JInt n) = True"
| "is_num (JBool b) = True"
| "is_num (JFloat x) = True"
| "is_num j = False"

fun num_val :: "json \<Rightarrow> real" where
  "num_val (JInt n) = real_of_int n"
| "num_val (JBool b) = (if b then 1 else 0)"
| "num_val (JFloat x) = x"
| "num_val j = 0"

datatype AttributeTypes = AT_string | AT_int | AT_float

text \<open>
  An attribute getter: \<open>partial(getattr, cls, attr_name)\<close>, the column of the class the
  compiler is for, or one of the two counting subqueries.
\<close>

datatype getter = Column string | obs_get_num_files | file_get_num_instances

datatype val = VStr string | VNum real

text \<open>The SQLAlchemy expressions the clauses build.\<close>

datatype expr =
    Like getter string
  | Eq getter val | Ne getter val
  | Gt getter val | Lt getter val | Ge getter val | Le getter val
  | SqlAnd "expr list" | SqlOr "expr list" | SqlNot expr
  | Literal bool
  | ObsidIn expr  \<comment> \<open>\<open>File.obsid.in_(query(Observation.obsid).filter(e))\<close>\<close>
  | CreateTimeGt real | CreateTimeLt real

datatype contents = MustBeText | MustBeInteger | MustBeNumeric | MustBeTwoNumbers | MustBeDict

datatype ServerError =
    CantParseJSON
  | DataMustBeDict string
  | UnrecognizedClause string
  | CantParseClause string contents string  \<comment> \<open>clause name, what is required, class got\<close>
  | UnhandledQueryType string

text \<open>
  The exceptions of the module: a \<open>ServerError\<close> of the compiler, the \<open>ArgumentError\<close>
  with which SQLAlchemy refuses an operand, the exception for an empty order name, and the
  error of the database when a commit breaks the uniqueness of the order names.
\<close>

datatype exn = ServerErr ServerError | ArgumentError | OrderNameEmpty | IntegrityError

text \<open>The entries of the dict \<open>clauses\<close>: the bound methods and partial applications.\<close>

datatype clause_impl =
    impl_do_and | impl_do_or | impl_do_none_of | impl_do_always_true | impl_do_always_false
  | impl_do_str_matches getter | impl_do_str_is_exactly getter | impl_do_str_is_not getter
  | impl_do_int_is_exactly getter | impl_do_int_is_not getter
  | impl_do_num_greater_than getter | impl_do_num_less_than getter
  | impl_do_num_in_range getter | impl_do_num_not_in_range getter
  | impl_do_obs_matches | impl_do_obs_sub_query
  | impl_do_not_older_than | impl_do_not_newer_than

type_synonym clauses = "(string \<times> clause_impl) list"

subsection \<open>The clause implementations of \<open>GenericSearchCompiler\<close>\<close>

definition do_str_matches :: "getter \<Rightarrow> string \<Rightarrow> json \<Rightarrow> exn + expr" where
  "do_str_matches attr_getter clause_name payload =
     (case payload of
        JStr s \<Rightarrow> Inr (Like attr_getter s)
      | _ \<Rightarrow> Inl (ServerErr (CantParseClause clause_name MustBeText (class_name payload))))"

definition do_str_is_exactly :: "getter \<Rightarrow> string \<Rightarrow> json \<Rightarrow> exn + expr" where
  "do_str_is_exactly attr_getter clause_name payload =
     (case payload of
        JStr s \<Rightarrow> Inr (Eq attr_getter (VStr s))
      | _ \<Rightarrow> Inl (ServerErr (CantParseClause clause_name MustBeText (class_name payload))))"

definition do_str_is_not :: "getter \<Rightarrow> string \<Rightarrow> json \<Rightarrow> exn + expr" where
  "do_str_is_not attr_getter clause_name payload =
     (case payload of
        JStr s \<Rightarrow> Inr (Ne attr_getter (VStr s))
      | _ \<Rightarrow> Inl (ServerErr (CantParseClause clause_name MustBeText (class_name payload))))"

text \<open>
  A comparison of \<open>attr_getter()\<close> with a number of the payload. When the getter gives a
  column, the operator is SQLAlchemy's, which builds the expression; the operators of
  order refuse a \<open>bool\<close> operand with \<open>ArgumentError\<close>. The two counting getters give an
  \<open>Alias\<close>, which has no operators of its own: the comparison is Python's comparison of
  unrelated objects, in which a number is smaller than any other object and equal to
  none, and the \<open>bool\<close> that results is the constant \<open>and_\<close>, \<open>or_\<close> and \<open>filter\<close> take
  it for. No expression on the count is built.
\<close>

fun is_bool :: "json \<Rightarrow> bool" where
  "is_bool (JBool b) = True"
| "is_bool j = False"

fun is_alias :: "getter \<Rightarrow> bool" where
  "is_alias (Column c) = False"
| "is_alias obs_get_num_files = True"
| "is_alias file_get_num_instances = True"

definition value_eq :: "getter \<Rightarrow> json \<Rightarrow> exn + expr" where
  "value_eq g v = (if is_alias g then Inr (Literal False) else Inr (Eq g (VNum (num_val v))))"

definition value_ne :: "getter \<Rightarrow> json \<Rightarrow> exn + expr" where
  "value_ne g v = (if is_alias g then Inr (Literal True) else Inr (Ne g (VNum (num_val v))))"

definition value_gt :: "getter \<Rightarrow> json \<Rightarrow> exn + expr" where
  "value_gt g v =
     (if is_alias g then Inr (Literal True)
      else if is_bool v then Inl ArgumentError
      else Inr (Gt g (VNum (num_val v))))"

definition value_ge :: "getter \<Rightarrow> json \<Rightarrow> exn + expr" where
  "value_ge g v =
     (if is_alias g then Inr (Literal True)
      else if is_bool v then Inl ArgumentError
      else Inr (Ge g (VNum (num_val v))))"

definition value_lt :: "getter \<Rightarrow> json \<Rightarrow> exn + expr" where
  "value_lt g v =
     (if is_alias g then Inr (Literal False)
      else if is_bool v then Inl ArgumentError
      else Inr (Lt g (VNum (num_val v))))"

definition value_le :: "getter \<Rightarrow> json \<Rightarrow> exn + expr" where
  "value_le g v =
     (if is_alias g then Inr (Literal False)
      else if is_bool v then Inl ArgumentError
      else Inr (Le g (VNum (num_val v))))"

definition do_int_is_exactly :: "getter \<Rightarrow> string \<Rightarrow> json \<Rightarrow> exn + expr" where
  "do_int_is_exactly attr_getter clause_name payload =
     (if \<not> is_int payload
      then Inl (ServerErr (CantParseClause clause_name MustBeInteger (class_name payload)))
      else value_eq attr_getter payload)"

definition do_int_is_not :: "getter \<Rightarrow> string \<Rightarrow> json \<Rightarrow> exn + expr" where
  "do_int_is_not attr_getter clause_name payload =
     (if \<not> is_int payload
      then Inl (ServerErr (CantParseClause clause_name MustBeInteger (class_name payload)))
      else value_ne attr_getter payload)"

definition do_num_greater_than :: "getter \<Rightarrow> string \<Rightarrow> json \<Rightarrow> exn + expr" where
  "do_num_greater_than attr_getter clause_name payload =
     (if \<not> is_num payload
      then Inl (ServerErr (CantParseClause clause_name MustBeNumeric (class_name payload)))
      else value_gt attr_getter payload)"

definition do_num_less_than :: "getter \<Rightarrow> string \<Rightarrow> json \<Rightarrow> exn + expr" where
  "do_num_less_than attr_getter clause_name payload =
     (if \<not> is_num payload
      then Inl (ServerErr (CantParseClause clause_name MustBeNumeric (class_name payload)))
      else value_lt attr_getter payload)"

text \<open>
  The two range clauses: the payload must be a list of two numbers; \<open>v1, v2\<close> are
  swapped when \<open>v1 > v2\<close>. The two comparisons are made in turn, the first that raises
  ends the clause.
\<close>

fun do_num_in_range :: "getter \<Rightarrow> string \<Rightarrow> json \<Rightarrow> exn + expr" where
  "do_num_in_range attr_getter clause_name (JList [p0, p1]) =
     (if \<not> is_num p0 \<or> \<not> is_num p1
      then Inl (ServerErr (CantParseClause clause_name MustBeTwoNumbers ''list''))
      else
        let (v1, v2) = (p0, p1);
            (v1, v2) = (if num_val v1 > num_val v2 then (v2, v1) else (v1, v2))
        in case value_ge attr_getter v1 of
             Inl e \<Rightarrow> Inl e
           | Inr ge_v1 \<Rightarrow>
               (case value_le attr_getter v2 of
                  Inl e \<Rightarrow> Inl e
                | Inr le_v2 \<Rightarrow> Inr (SqlAnd [ge_v1, le_v2])))"
| "do_num_in_range attr_getter clause_name payload =
     Inl (ServerErr (CantParseClause clause_name MustBeTwoNumbers (class_name payload)))"

fun do_num_not_in_range :: "getter \<Rightarrow> string \<Rightarrow> json \<Rightarrow> exn + expr" where
  "do_num_not_in_range attr_getter clause_name (JList [p0, p1]) =
     (if \<not> is_num p0 \<or> \<not> is_num p1
      then Inl (ServerErr (CantParseClause clause_name MustBeTwoNumbers ''list''))
      else
        let (v1, v2) = (p0, p1);
            (v1, v2) = (if num_val v1 > num_val v2 then (v2, v1) else (v1, v2))
        in case value_lt attr_getter v1 of
             Inl e \<Rightarrow> Inl e
           | Inr lt_v1 \<Rightarrow>
               (case value_gt attr_getter v2 of
                  Inl e \<Rightarrow> Inl e
                | Inr gt_v2 \<Rightarrow> Inr (SqlOr [lt_v1, gt_v2])))"
| "do_num_not_in_range attr_getter clause_name payload =
     Inl (ServerErr (CantParseClause clause_name MustBeTwoNumbers (class_name payload)))"

text \<open>
  \<open>_compile_clause\<close> with the generic clauses \<open>and\<close>, \<open>or\<close>, \<open>none-of\<close>, \<open>always-true\<close>
  and \<open>always-false\<close>. The methods a subclass adds are the parameter \<open>own\<close>. A list
  comprehension over the items of the payload stops at the first item that raises.
\<close>

fun compile_clause ::
    "(clause_impl \<Rightarrow> string \<Rightarrow> json \<Rightarrow> exn + expr) \<Rightarrow> clauses \<Rightarrow> string \<Rightarrow> json \<Rightarrow>
     exn + expr"
  and compile_items ::
    "(clause_impl \<Rightarrow> string \<Rightarrow> json \<Rightarrow> exn + expr) \<Rightarrow> clauses \<Rightarrow> (string \<times> json) list \<Rightarrow>
     exn + expr list" where
  "compile_clause own cl name payload =
     (case map_of cl name of
        None \<Rightarrow> Inl (ServerErr (UnrecognizedClause name))
      | Some impl \<Rightarrow>
          (case impl of
             impl_do_and \<Rightarrow>
               (case payload of
                  JDict kvs \<Rightarrow>
                    if kvs = [] then Inl (ServerErr (CantParseClause name MustBeDict ''dict''))
                    else (case compile_items own cl kvs of
                            Inl e \<Rightarrow> Inl e | Inr es \<Rightarrow> Inr (SqlAnd es))
                | _ \<Rightarrow> Inl (ServerErr (CantParseClause name MustBeDict (class_name payload))))
           | impl_do_or \<Rightarrow>
               (case payload of
                  JDict kvs \<Rightarrow>
                    if kvs = [] then Inl (ServerErr (CantParseClause name MustBeDict ''dict''))
                    else (case compile_items own cl kvs of
                            Inl e \<Rightarrow> Inl e | Inr es \<Rightarrow> Inr (SqlOr es))
                | _ \<Rightarrow> Inl (ServerErr (CantParseClause name MustBeDict (class_name payload))))
           | impl_do_none_of \<Rightarrow>
               (case payload of
                  JDict kvs \<Rightarrow>
                    if kvs = [] then Inl (ServerErr (CantParseClause name MustBeDict ''dict''))
                    else (case compile_items own cl kvs of
                            Inl e \<Rightarrow> Inl e | Inr es \<Rightarrow> Inr (SqlNot (SqlOr es)))
                | _ \<Rightarrow> Inl (ServerErr (CantParseClause name MustBeDict (class_name payload))))
           | impl_do_always_true \<Rightarrow> Inr (Literal True)
           | impl_do_always_false \<Rightarrow> Inr (Literal False)
           | impl_do_str_matches g \<Rightarrow> do_str_matches g name payload
           | impl_do_str_is_exactly g \<Rightarrow> do_str_is_exactly g name payload
           | impl_do_str_is_not g \<Rightarrow> do_str_is_not g name payload
           | impl_do_int_is_exactly g \<Rightarrow> do_int_is_exactly g name payload
           | impl_do_int_is_not g \<Rightarrow> do_int_is_not g name payload
           | impl_do_num_greater_than g \<Rightarrow> do_num_greater_than g name payload
           | impl_do_num_less_than g \<Rightarrow> do_num_less_than g name payload
           | impl_do_num_in_range g \<Rightarrow> do_num_in_range g name payload
           | impl_do_num_not_in_range g \<Rightarrow> do_num_not_in_range g name payload
           | _ \<Rightarrow> own impl name payload))"
| "compile_items own cl [] = Inr []"
| "compile_items own cl ((k, v) # kvs) =
     (case compile_clause own cl k v of
        Inl e \<Rightarrow> Inl e
      | Inr x \<Rightarrow> (case compile_items own cl kvs of Inl e \<Rightarrow> Inl e | Inr xs \<Rightarrow> Inr (x # xs)))"

definition compile ::
  "(clause_impl \<Rightarrow> string \<Rightarrow> json \<Rightarrow> exn + expr) \<Rightarrow> clauses \<Rightarrow> json \<Rightarrow> exn + expr" where
  "compile own cl search =
     (case search of
        JDict kvs \<Rightarrow> compile_clause own cl ''and'' search
      | _ \<Rightarrow> Inl (ServerErr (DataMustBeDict (class_name search))))"

definition GenericSearchCompiler_init :: clauses where
  "GenericSearchCompiler_init =
     [(''and'', impl_do_and), (''or'', impl_do_or), (''none-of'', impl_do_none_of),
      (''always-true'', impl_do_always_true), (''always-false'', impl_do_always_false)]"

text \<open>\<open>s.replace(a, b)\<close> for single characters \<open>a\<close> and \<open>b\<close>.\<close>

definition str_replace :: "char \<Rightarrow> char \<Rightarrow> string \<Rightarrow> string" where
  "str_replace a b s = map (\<lambda>c. if c = a then b else c) s"

text \<open>\<open>_add_attributes\<close>; \<open>self.clauses[k] = v\<close> is \<open>AList.update k v\<close>.\<close>

fun add_attributes :: "(string \<times> AttributeTypes \<times> getter option) list \<Rightarrow> clauses \<Rightarrow> clauses" where
  "add_attributes [] cl = cl"
| "add_attributes ((attr_name, attr_type, attr_getter) # attr_info) cl =
     (let clause_name = str_replace CHR ''_'' CHR ''-'' attr_name;
          g = (case attr_getter of None \<Rightarrow> Column attr_name | Some g \<Rightarrow> g)
      in add_attributes attr_info
           (case attr_type of
              AT_string \<Rightarrow>
                AList.update (clause_name @ ''-matches'') (impl_do_str_matches g)
                  (AList.update (clause_name @ ''-is-not'') (impl_do_str_is_not g)
                     (AList.update (clause_name @ ''-is-exactly'') (impl_do_str_is_exactly g) cl))
            | AT_int \<Rightarrow>
                AList.update (clause_name @ ''-not-in-range'') (impl_do_num_not_in_range g)
                  (AList.update (clause_name @ ''-in-range'') (impl_do_num_in_range g)
                     (AList.update (clause_name @ ''-less-than'') (impl_do_num_less_than g)
                        (AList.update (clause_name @ ''-greater-than'') (impl_do_num_greater_than g)
                           (AList.update (clause_name @ ''-is-not'') (impl_do_int_is_not g)
                              (AList.update (clause_name @ ''-is-exactly'')
                                 (impl_do_int_is_exactly g) cl)))))
            | AT_float \<Rightarrow>
                AList.update (clause_name @ ''-not-in-range'') (impl_do_num_not_in_range g)
                  (AList.update (clause_name @ ''-in-range'') (impl_do_num_in_range g)
                     (AList.update (clause_name @ ''-less-than'') (impl_do_num_less_than g)
                        (AList.update (clause_name @ ''-greater-than'')
                           (impl_do_num_greater_than g) cl)))))"

definition simple_obs_attrs :: "(string \<times> AttributeTypes \<times> getter option) list" where
  "simple_obs_attrs =
     [(''obsid'', AT_int, None),
      (''start_time_jd'', AT_float, None),
      (''stop_time_jd'', AT_float, None),
      (''start_lst_hr'', AT_float, None),
      (''session_id'', AT_int, None),
      (''duration'', AT_float, None),
      (''num_files'', AT_int, Some obs_get_num_files)]"

definition the_obs_search_compiler :: clauses where
  "the_obs_search_compiler = add_attributes simple_obs_attrs GenericSearchCompiler_init"

text \<open>\<open>ObservationSearchCompiler\<close> adds no clause method of its own.\<close>

definition ObservationSearchCompiler_own :: "clause_impl \<Rightarrow> string \<Rightarrow> json \<Rightarrow> exn + expr" where
  "ObservationSearchCompiler_own impl name payload = Inl (ServerErr (UnrecognizedClause name))"

definition simple_file_attrs :: "(string \<times> AttributeTypes \<times> getter option) list" where
  "simple_file_attrs =
     [(''name'', AT_string, None),
      (''type'', AT_string, None),
      (''source'', AT_string, None),
      (''size'', AT_int, None),
      (''obsid'', AT_int, None),
      (''num-instances'', AT_int, Some file_get_num_instances)]"

text \<open>\<open>self.clauses[new] = self.clauses[old]\<close>; the key \<open>old\<close> is there in both uses.\<close>

definition copy_clause :: "string \<Rightarrow> string \<Rightarrow> clauses \<Rightarrow> clauses" where
  "copy_clause new old cl = (case map_of cl old of None \<Rightarrow> cl | Some impl \<Rightarrow> AList.update new impl cl)"

text \<open>The prefixes of the observation clauses that a file search takes over.\<close>

definition obs_clause_prefixes :: "string list" where
  "obs_clause_prefixes = [''start-time-jd'', ''stop-time-jd'', ''start-lst-hr'', ''session-id'']"

definition the_file_search_compiler :: clauses where
  "the_file_search_compiler =
     (let cl = add_attributes simple_file_attrs GenericSearchCompiler_init;
          cl = AList.update ''obs-matches'' impl_do_obs_matches cl;
          cl = copy_clause ''name-like'' ''name-matches'' cl;
          cl = copy_clause ''source-is'' ''source-is-exactly'' cl;
          cl = fold (\<lambda>pfx cl.
                 fold (\<lambda>cname cl.
                         if prefix pfx cname then AList.update cname impl_do_obs_sub_query cl else cl)
                   (map fst the_obs_search_compiler) cl)
                 obs_clause_prefixes cl;
          cl = AList.update ''not-older-than'' impl_do_not_older_than cl;
          cl = AList.update ''not-newer-than'' impl_do_not_newer_than cl
      in cl)"

text \<open>
  The clause methods of \<open>FileSearchCompiler\<close>. \<open>utcnow\<close> is what
  \<open>datetime.datetime.utcnow()\<close> gives, in seconds; a day has 86400 of them.
\<close>

definition do_not_older_than :: "real \<Rightarrow> string \<Rightarrow> json \<Rightarrow> exn + expr" where
  "do_not_older_than utcnow clause_name payload =
     (if \<not> is_num payload
      then Inl (ServerErr (CantParseClause clause_name MustBeNumeric (class_name payload)))
      else Inr (CreateTimeGt (utcnow - 86400 * num_val payload)))"

definition do_not_newer_than :: "real \<Rightarrow> string \<Rightarrow> json \<Rightarrow> exn + expr" where
  "do_not_newer_than utcnow clause_name payload =
     (if \<not> is_num payload
      then Inl (ServerErr (CantParseClause clause_name MustBeNumeric (class_name payload)))
      else Inr (CreateTimeLt (utcnow - 86400 * num_val payload)))"

definition do_obs_matches :: "string \<Rightarrow> json \<Rightarrow> exn + expr" where
  "do_obs_matches clause_name payload =
     (case compile ObservationSearchCompiler_own the_obs_search_compiler payload of
        Inl e \<Rightarrow> Inl e | Inr e \<Rightarrow> Inr (ObsidIn e))"

definition do_obs_sub_query :: "string \<Rightarrow> json \<Rightarrow> exn + expr" where
  "do_obs_sub_query clause_name payload =
     (case compile_clause ObservationSearchCompiler_own the_obs_search_compiler clause_name payload of
        Inl e \<Rightarrow> Inl e | Inr e \<Rightarrow> Inr (ObsidIn e))"

definition FileSearchCompiler_own :: "real \<Rightarrow> clause_impl \<Rightarrow> string \<Rightarrow> json \<Rightarrow> exn + expr" where
  "FileSearchCompiler_own utcnow impl name payload =
     (case impl of
        impl_do_obs_matches \<Rightarrow> do_obs_matches name payload
      | impl_do_obs_sub_query \<Rightarrow> do_obs_sub_query name payload
      | impl_do_not_older_than \<Rightarrow> do_not_older_than utcnow name payload
      | impl_do_not_newer_than \<Rightarrow> do_not_newer_than utcnow name payload
      | _ \<Rightarrow> Inl (ServerErr (UnrecognizedClause name)))"


subsection \<open>\<open>compile_search\<close>\<close>

text \<open>
  \<open>unicode.splitlines\<close>: the line boundaries among the 8-bit characters are line feed,
  carriage return (with a following line feed), vertical tab, form feed, the three
  separators 1C to 1E, and next line (85).
\<close>

definition is_linebreak :: "char \<Rightarrow> bool" where
  "is_linebreak c =
     (c \<in> {CHR 0x0A, CHR 0x0D, CHR 0x0B, CHR 0x0C, CHR 0x1C, CHR 0x1D, CHR 0x1E, CHR 0x85})"

function splitlines :: "string \<Rightarrow> string list" where
  "splitlines s =
     (if s = [] then []
      else takeWhile (\<lambda>c. \<not> is_linebreak c) s #
           (case dropWhile (\<lambda>c. \<not> is_linebreak c) s of
              [] \<Rightarrow> []
            | c # r \<Rightarrow>
                (case r of
                   [] \<Rightarrow> []
                 | d # r' \<Rightarrow> if c = CHR 0x0D \<and> d = CHR 0x0A then splitlines r' else splitlines r)))"
  by pat_completeness auto
termination
proof (relation "measure length")
  show "wf (measure length)" by simp
next
  fix s :: string and c r d r'
  assume "dropWhile (\<lambda>c. \<not> is_linebreak c) s = c # r" "r = d # r'"
  then have "length (dropWhile (\<lambda>c. \<not> is_linebreak c) s) = Suc (Suc (length r'))" by simp
  moreover have "length (dropWhile (\<lambda>c. \<not> is_linebreak c) s) \<le> length s"
    by (rule length_dropWhile_le)
  ultimately show "(r', s) \<in> measure length" by simp
next
  fix s :: string and c r d r'
  assume "dropWhile (\<lambda>c. \<not> is_linebreak c) s = c # r" "r = d # r'"
  then have "length (dropWhile (\<lambda>c. \<not> is_linebreak c) s) = Suc (length r)" by simp
  moreover have "length (dropWhile (\<lambda>c. \<not> is_linebreak c) s) \<le> length s"
    by (rule length_dropWhile_le)
  ultimately show "(r, s) \<in> measure length" by simp
qed

text \<open>\<open>'\n'.join\<close>\<close>

fun join_lines :: "string list \<Rightarrow> string" where
  "join_lines [] = []"
| "join_lines [l] = l"
| "join_lines (l # ls) = l @ [CHR 0x0A] @ join_lines ls"

text \<open>\<open>filter_comments\<close>: \<open>line.split('#', 1)[0]\<close> for every line.\<close>

definition filter_comments :: "string \<Rightarrow> string list" where
  "filter_comments search_string =
     map (takeWhile (\<lambda>c. c \<noteq> CHR ''#'')) (splitlines search_string)"

datatype query = FilesQuery expr | NamesQuery expr | ObsQuery expr

text \<open>
  \<open>json_loads\<close> stands for the JSON parser of the Python library, \<open>None\<close> when it
  raises.
\<close>

definition compile_search ::
  "(string \<Rightarrow> json option) \<Rightarrow> real \<Rightarrow> string \<Rightarrow> string \<Rightarrow> exn + query" where
  "compile_search json_loads utcnow search_string query_type =
     (case json_loads (join_lines (filter_comments search_string)) of
        None \<Rightarrow> Inl (ServerErr CantParseJSON)
      | Some search \<Rightarrow>
          if query_type = ''files'' then
            (case compile (FileSearchCompiler_own utcnow) the_file_search_compiler search of
               Inl e \<Rightarrow> Inl e | Inr e \<Rightarrow> Inr (FilesQuery e))
          else if query_type = ''names'' then
            (case compile (FileSearchCompiler_own utcnow) the_file_search_compiler search of
               Inl e \<Rightarrow> Inl e | Inr e \<Rightarrow> Inr (NamesQuery e))
          else if query_type = ''obs'' then
            (case compile ObservationSearchCompiler_own the_obs_search_compiler search of
               Inl e \<Rightarrow> Inl e | Inr e \<Rightarrow> Inr (ObsQuery e))
          else Inl (ServerErr (UnhandledQueryType query_type)))"

subsection \<open>The database and what an expression selects\<close>

record Observation =
  obsid :: int
  start_time_jd :: real
  stop_time_jd :: real
  start_lst_hr :: real
  session_id :: int
  duration :: real

record File =
  file_name :: string
  file_type :: string
  file_source :: string
  file_size :: int
  file_obsid :: int
  create_time :: real

record FileInstance =
  file_instance_name :: string
  file_instance_store :: nat

record FileEvent =
  file_event_name :: string
  file_event_type :: string

record StandingOrder =
  so_id :: nat
  so_name :: string
  so_search :: string
  so_conn_name :: string

record Database =
  observations :: "Observation list"
  files :: "File list"
  file_instances :: "FileInstance list"
  file_events :: "FileEvent list"
  standing_orders :: "StandingOrder list"

text \<open>
  The value of a getter at a row; \<open>None\<close> when the class has no such column. The two
  counting getters name no column: no expression is ever built on them.
\<close>

definition Observation_attr :: "Database \<Rightarrow> Observation \<Rightarrow> getter \<Rightarrow> val option" where
  "Observation_attr db ob g =
     (case g of
        Column c \<Rightarrow>
          if c = ''obsid'' then Some (VNum (real_of_int (obsid ob)))
          else if c = ''start_time_jd'' then Some (VNum (start_time_jd ob))
          else if c = ''stop_time_jd'' then Some (VNum (stop_time_jd ob))
          else if c = ''start_lst_hr'' then Some (VNum (start_lst_hr ob))
          else if c = ''session_id'' then Some (VNum (real_of_int (session_id ob)))
          else if c = ''duration'' then Some (VNum (duration ob))
          else None
      | obs_get_num_files \<Rightarrow> None
      | file_get_num_instances \<Rightarrow> None)"

definition File_attr :: "Database \<Rightarrow> File \<Rightarrow> getter \<Rightarrow> val option" where
  "File_attr db f g =
     (case g of
        Column c \<Rightarrow>
          if c = ''name'' then Some (VStr (file_name f))
          else if c = ''type'' then Some (VStr (file_type f))
          else if c = ''source'' then Some (VStr (file_source f))
          else if c = ''size'' then Some (VNum (real_of_int (file_size f)))
          else if c = ''obsid'' then Some (VNum (real_of_int (file_obsid f)))
          else None
      | file_get_num_instances \<Rightarrow> None
      | obs_get_num_files \<Rightarrow> None)"

text \<open>
  The pattern match of the database's \<open>LIKE\<close>: \<open>%\<close> stands for any run of characters
  and \<open>_\<close> for any one character.
\<close>

fun sql_like :: "string \<Rightarrow> string \<Rightarrow> bool" where
  "sql_like [] s = (s = [])"
| "sql_like (p # ps) [] = (p = CHR ''%'' \<and> sql_like ps [])"
| "sql_like (p # ps) (c # cs) =
     (if p = CHR ''%'' then sql_like ps (c # cs) \<or> sql_like (p # ps) cs
      else (p = CHR ''_'' \<or> p = c) \<and> sql_like ps cs)"

text \<open>
  Whether a row satisfies an expression: \<open>attr\<close> gives the row's values, \<open>sub\<close>
  decides the subquery on the observations, \<open>ct\<close> is the row's creation time.
\<close>

fun holds :: "(getter \<Rightarrow> val option) \<Rightarrow> (expr \<Rightarrow> bool) \<Rightarrow> real \<Rightarrow> expr \<Rightarrow> bool" where
  "holds attr sub ct (Like g p) = (case attr g of Some (VStr s) \<Rightarrow> sql_like p s | _ \<Rightarrow> False)"
| "holds attr sub ct (Eq g v) = (case attr g of Some x \<Rightarrow> x = v | None \<Rightarrow> False)"
| "holds attr sub ct (Ne g v) = (case attr g of Some x \<Rightarrow> x \<noteq> v | None \<Rightarrow> False)"
| "holds attr sub ct (Gt g v) =
     (case (attr g, v) of (Some (VNum x), VNum y) \<Rightarrow> x > y | _ \<Rightarrow> False)"
| "holds attr sub ct (Lt g v) =
     (case (attr g, v) of (Some (VNum x), VNum y) \<Rightarrow> x < y | _ \<Rightarrow> False)"
| "holds attr sub ct (Ge g v) =
     (case (attr g, v) of (Some (VNum x), VNum y) \<Rightarrow> x \<ge> y | _ \<Rightarrow> False)"
| "holds attr sub ct (Le g v) =
     (case (attr g, v) of (Some (VNum x), VNum y) \<Rightarrow> x \<le> y | _ \<Rightarrow> False)"
| "holds attr sub ct (SqlAnd es) = (\<forall>e \<in> set es. holds attr sub ct e)"
| "holds attr sub ct (SqlOr es) = (\<exists>e \<in> set es. holds attr sub ct e)"
| "holds attr sub ct (SqlNot e) = (\<not> holds attr sub ct e)"
| "holds attr sub ct (Literal b) = b"
| "holds attr sub ct (ObsidIn e) = sub e"
| "holds attr sub ct (CreateTimeGt t) = (ct > t)"
| "holds attr sub ct (CreateTimeLt t) = (ct < t)"

definition Observation_holds :: "Database \<Rightarrow> Observation \<Rightarrow> expr \<Rightarrow> bool" where
  "Observation_holds db ob e = holds (Observation_attr db ob) (\<lambda>e. False) 0 e"

definition File_holds :: "Database \<Rightarrow> File \<Rightarrow> expr \<Rightarrow> bool" where
  "File_holds db f e =
     holds (File_attr db f)
       (\<lambda>e. \<exists>ob \<in> set (observations db). obsid ob = file_obsid f \<and> Observation_holds db ob e)
       (create_time f) e"

text \<open>The rows a query on the \<open>File\<close> table yields when it is iterated.\<close>

definition query_files :: "Database \<Rightarrow> query \<Rightarrow> File list" where
  "query_files db q =
     (case q of FilesQuery e \<Rightarrow> filter (\<lambda>f. File_holds db f e) (files db) | _ \<Rightarrow> [])"


subsection \<open>Standing orders\<close>

text \<open>
  The tasks of \<open>the_task_manager\<close>. Only an \<open>UploaderTask\<close> has the fields that
  \<open>get_files_to_copy\<close> reads.
\<close>

record UploaderTask =
  store_path :: string
  standing_order_name :: "string option"
  exception :: "string option"

datatype BackgroundTask = Uploader UploaderTask | OtherTask

text \<open>What is outside the module: the JSON parser, the clocks, the configuration, and
  \<open>launch_copy_by_file_name\<close> of the store module, which may add to the tasks and
  answers whether no instance of the file was there to copy.\<close>

record ServerEnv =
  json_loads :: "string \<Rightarrow> json option"
  utcnow :: real
  tm_hour :: "real \<Rightarrow> nat"  \<comment> \<open>\<open>time.localtime(now).tm_hour\<close>\<close>
  standing_order_mode :: "string option"  \<comment> \<open>the entry of \<open>app.config\<close>, if any\<close>
  launch_copy_by_file_name ::
    "Database \<Rightarrow> string \<Rightarrow> string \<Rightarrow> string \<Rightarrow> BackgroundTask list \<Rightarrow> bool \<times> BackgroundTask list"

datatype StordLog =
    LogEvaluating string
  | LogGotAHit string
  | LogNoInstances string string string
  | LogDisabled
  | LogNighttime nat
  | LogUnrecognizedMode string
  | LogRunningSearches
  | LogCalledQueue
  | LogTimeoutScheduled

text \<open>
  The state of the server: the database, the tasks of the task manager, the fields
  \<open>last_check\<close> and \<open>launch_queued\<close> of \<open>the_standing_order_manager\<close>, the delays of the
  callbacks handed to the IO loop, and what was logged.
\<close>

record World =
  database :: Database
  tasks :: "BackgroundTask list"
  last_check :: real
  launch_queued :: bool
  call_later :: "nat list"
  stord_log :: "StordLog list"

definition stord_logger :: "StordLog \<Rightarrow> World \<Rightarrow> World" where
  "stord_logger l w = w\<lparr>stord_log := stord_log w @ [l]\<rparr>"

definition validate :: "ServerEnv \<Rightarrow> StandingOrder \<Rightarrow> exn option" where
  "validate env self =
     (case compile_search (json_loads env) (utcnow env) (so_search self) ''files'' of
        Inl e \<Rightarrow> Some e | Inr q \<Rightarrow> None)"

definition event_type :: "StandingOrder \<Rightarrow> string" where
  "event_type self = ''standing_order_succeeded:'' @ so_name self"

text \<open>\<open>os.path.basename\<close>: what follows the last slash.\<close>

definition basename :: "string \<Rightarrow> string" where
  "basename p = rev (takeWhile (\<lambda>c. c \<noteq> CHR ''/'') (rev p))"

definition get_files_to_copy ::
  "ServerEnv \<Rightarrow> Database \<Rightarrow> BackgroundTask list \<Rightarrow> StandingOrder \<Rightarrow> exn + File list" where
  "get_files_to_copy env db the_tasks self =
     (case compile_search (json_loads env) (utcnow env) (so_search self) ''files'' of
        Inl e \<Rightarrow> Inl e
      | Inr query \<Rightarrow>
          let already_done =
                concat (map (\<lambda>f. concat (map (\<lambda>ev.
                    if file_event_name ev = file_name f \<and> file_event_type ev = event_type self
                    then [file_name f] else []) (file_events db))) (files db));
              query_rows = filter (\<lambda>f. file_name f \<notin> set already_done) (query_files db query);
              already_launched =
                set (concat (map (\<lambda>t.
                    case t of
                      Uploader u \<Rightarrow>
                        if Some (so_name self) = standing_order_name u \<and> exception u = None
                        then [basename (store_path u)] else []
                    | OtherTask \<Rightarrow> []) the_tasks))
          in Inr (filter (\<lambda>file. file_name file \<notin> already_launched) query_rows))"

text \<open>The loop of \<open>StandingOrder.maybe_launch_copies\<close> over the files to copy.\<close>

fun launch_copies :: "ServerEnv \<Rightarrow> StandingOrder \<Rightarrow> File list \<Rightarrow> World \<Rightarrow> World" where
  "launch_copies env self [] w = w"
| "launch_copies env self (file # rest) w =
     (let w = stord_logger (LogGotAHit (file_name file)) w;
          (no_instance, the_tasks) =
             launch_copy_by_file_name env (database w) (file_name file) (so_conn_name self)
               (so_name self) (tasks w);
          w = w\<lparr>tasks := the_tasks\<rparr>;
          w = (if no_instance
               then stord_logger (LogNoInstances (so_name self) (file_name file) (so_conn_name self)) w
               else w)
      in launch_copies env self rest w)"

definition StandingOrder_maybe_launch_copies ::
  "ServerEnv \<Rightarrow> StandingOrder \<Rightarrow> World \<Rightarrow> exn option \<times> World" where
  "StandingOrder_maybe_launch_copies env self w =
     (let w = stord_logger (LogEvaluating (so_name self)) w
      in case get_files_to_copy env (database w) (tasks w) self of
           Inl e \<Rightarrow> (Some e, w)
         | Inr fs \<Rightarrow> (None, launch_copies env self fs w))"

subsection \<open>The standing order manager\<close>

definition MIN_STANDING_ORDER_INTERVAL :: real where
  "MIN_STANDING_ORDER_INTERVAL = 1200"

definition DEFAULT_STANDING_ORDER_DELAY :: nat where
  "DEFAULT_STANDING_ORDER_DELAY = 90"

text \<open>The loop over \<open>StandingOrder.query.all()\<close>; an exception ends it.\<close>

fun evaluate_orders :: "ServerEnv \<Rightarrow> StandingOrder list \<Rightarrow> World \<Rightarrow> exn option \<times> World" where
  "evaluate_orders env [] w = (None, w)"
| "evaluate_orders env (storder # rest) w =
     (case StandingOrder_maybe_launch_copies env storder w of
        (Some e, w') \<Rightarrow> (Some e, w')
      | (None, w') \<Rightarrow> evaluate_orders env rest w')"

text \<open>
  \<open>StandingOrderManager.maybe_launch_copies\<close>, called when \<open>time.time()\<close> is \<open>now\<close>. The
  result is what the call returns, or the exception that leaves it.
\<close>

definition maybe_launch_copies :: "ServerEnv \<Rightarrow> real \<Rightarrow> World \<Rightarrow> (exn + bool) \<times> World" where
  "maybe_launch_copies env now w =
     (if now - last_check w < MIN_STANDING_ORDER_INTERVAL then (Inr False, w)
      else
        let mode = (case standing_order_mode env of None \<Rightarrow> ''normal'' | Some m \<Rightarrow> m) in
        if mode = ''disabled'' then (Inr True, stord_logger LogDisabled w)
        else if mode = ''nighttime'' \<and> tm_hour env now \<ge> 8 \<and> tm_hour env now < 20
        then (Inr True, stord_logger (LogNighttime (tm_hour env now)) w)
        else
          let w = (if mode \<noteq> ''nighttime'' \<and> mode \<noteq> ''normal''
                   then stord_logger (LogUnrecognizedMode mode) w else w);
              w = stord_logger LogRunningSearches w;
              w = w\<lparr>last_check := now\<rparr>
          in case evaluate_orders env (standing_orders (database w)) w of
               (Some e, w') \<Rightarrow> (Inl e, w')
             | (None, w') \<Rightarrow> (Inr True, w'))"

definition queue_launch_copy :: "World \<Rightarrow> World" where
  "queue_launch_copy w =
     (let w = stord_logger LogCalledQueue w in
      if launch_queued w then w
      else stord_logger LogTimeoutScheduled
             (w\<lparr>launch_queued := True,
                call_later := call_later w @ [DEFAULT_STANDING_ORDER_DELAY]\<rparr>))"

definition queue_standing_order_copies :: "World \<Rightarrow> World" where
  "queue_standing_order_copies w = queue_launch_copy w"

subsection \<open>Creating and updating a standing order\<close>

text \<open>
  The \<open>except Exception\<close> of the two handlers catches every \<open>exn\<close> and flashes it.
\<close>

datatype flash =
    CannotCreate string exn
  | CannotUpdate string exn
  | NoSuchStandingOrder string
  | UpdatedStandingOrder string

record Response =
  flashed :: "flash list"
  redirect :: string

definition default_search :: string where
  "default_search =
     ''{'' @ [CHR 0x0A] @
     ''  '' @ [CHR 0x22] @ ''name-matches'' @ [CHR 0x22] @ '': '' @ [CHR 0x22] @
       ''any-file-named-like-%-this'' @ [CHR 0x22] @ '','' @ [CHR 0x0A] @
     ''  '' @ [CHR 0x22] @ ''not-older-than'' @ [CHR 0x22] @ '': 14 # days'' @ [CHR 0x0A] @
     ''}''"

text \<open>
  \<open>db.session.commit()\<close> with a new row, or with the row \<open>so_id\<close> changed: the names of
  the orders are unique, and a new row gets the next id.
\<close>

definition commit_new_order :: "StandingOrder \<Rightarrow> Database \<Rightarrow> Database option" where
  "commit_new_order storder db =
     (if \<exists>r \<in> set (standing_orders db). so_name r = so_name storder then None
      else Some (db\<lparr>standing_orders := standing_orders db @
                    [storder\<lparr>so_id := Suc (fold max (map so_id (standing_orders db)) 0)\<rparr>]\<rparr>))"

definition commit_changed_order :: "StandingOrder \<Rightarrow> Database \<Rightarrow> Database option" where
  "commit_changed_order storder db =
     (if \<exists>r \<in> set (standing_orders db). so_id r \<noteq> so_id storder \<and> so_name r = so_name storder
      then None
      else Some (db\<lparr>standing_orders :=
                    map (\<lambda>r. if so_id r = so_id storder then storder else r) (standing_orders db)\<rparr>))"

definition create_standing_order :: "ServerEnv \<Rightarrow> string \<Rightarrow> World \<Rightarrow> Response \<times> World" where
  "create_standing_order env name w =
     (if name = [] then
        (\<lparr>flashed = [CannotCreate name OrderNameEmpty], redirect = ''/standing-orders''\<rparr>, w)
      else
        let storder = \<lparr>so_id = 0, so_name = name, so_search = default_search,
                       so_conn_name = ''undefined-connection''\<rparr>
        in case validate env storder of
             Some e \<Rightarrow>
               (\<lparr>flashed = [CannotCreate name e], redirect = ''/standing-orders''\<rparr>, w)
           | None \<Rightarrow>
               (case validate env storder of
                  Some e \<Rightarrow>
                    (\<lparr>flashed = [CannotCreate name e],
                      redirect = ''/standing-orders''\<rparr>, w)
                | None \<Rightarrow>
                    (case commit_new_order storder (database w) of
                       None \<Rightarrow>
                         (\<lparr>flashed = [CannotCreate name IntegrityError],
                           redirect = ''/standing-orders''\<rparr>, w)
                     | Some db \<Rightarrow>
                         (\<lparr>flashed = [], redirect = ''/standing-orders/'' @ name\<rparr>,
                          w\<lparr>database := db\<rparr>))))"

definition update_standing_order ::
  "ServerEnv \<Rightarrow> string \<Rightarrow> string \<Rightarrow> string \<Rightarrow> string \<Rightarrow> World \<Rightarrow> Response \<times> World" where
  "update_standing_order env name new_name new_conn new_search w =
     (case find (\<lambda>r. so_name r = name) (standing_orders (database w)) of
        None \<Rightarrow> (\<lparr>flashed = [NoSuchStandingOrder name], redirect = ''/standing-orders''\<rparr>, w)
      | Some storder \<Rightarrow>
          let storder = storder\<lparr>so_name := new_name, so_conn_name := new_conn,
                                so_search := new_search\<rparr>
          in case validate env storder of
               Some e \<Rightarrow>
                 (\<lparr>flashed = [CannotUpdate name e], redirect = ''/standing-orders''\<rparr>, w)
             | None \<Rightarrow>
                 (case commit_changed_order storder (database w) of
                    None \<Rightarrow>
                      (\<lparr>flashed = [CannotUpdate name IntegrityError],
                        redirect = ''/standing-orders''\<rparr>, w)
                  | Some db \<Rightarrow>
                      (\<lparr>flashed = [UpdatedStandingOrder new_name], redirect = ''/standing-orders''\<rparr>,
                       queue_standing_order_copies (w\<lparr>database := db\<rparr>))))"

subsection \<open>Notions used to state the properties of the searches and standing orders\<close>

text \<open>
  What the log tells of the evaluations: the names of the standing orders that were
  evaluated, in order, and how many times the manager went on to run the searches.
\<close>

definition evaluations :: "StordLog list \<Rightarrow> string list" where
  "evaluations ls = concat (map (\<lambda>l. case l of LogEvaluating n \<Rightarrow> [n] | _ \<Rightarrow> []) ls)"

definition searches_run :: "StordLog list \<Rightarrow> nat" where
  "searches_run ls = length (filter (\<lambda>l. l = LogRunningSearches) ls)"

text \<open>The database and the fields of the manager are the same in both states.\<close>

definition same_manager :: "World \<Rightarrow> World \<Rightarrow> bool" where
  "same_manager w w' =
     (database w' = database w \<and> last_check w' = last_check w \<and>
      launch_queued w' = launch_queued w \<and> call_later w' = call_later w)"

text \<open>
  What an evaluation of the standing orders does to the tasks: for each order in turn the
  files \<open>get_files_to_copy\<close> yields are found, with the tasks as they are then, and a
  copy of each of them is asked of \<open>launch_copy_by_file_name\<close> with the order's
  connection and name. The result is \<open>None\<close> when the search of an order raises.
\<close>

definition launch_each ::
  "ServerEnv \<Rightarrow> Database \<Rightarrow> StandingOrder \<Rightarrow> File list \<Rightarrow> BackgroundTask list \<Rightarrow>
   BackgroundTask list" where
  "launch_each env db storder fs ts =
     fold (\<lambda>f ts. snd (launch_copy_by_file_name env db (file_name f) (so_conn_name storder)
                          (so_name storder) ts)) fs ts"

fun tasks_after_orders ::
  "ServerEnv \<Rightarrow> Database \<Rightarrow> StandingOrder list \<Rightarrow> BackgroundTask list \<Rightarrow>
   BackgroundTask list option" where
  "tasks_after_orders env db [] ts = Some ts"
| "tasks_after_orders env db (storder # rest) ts =
     (case get_files_to_copy env db ts storder of
        Inl e \<Rightarrow> None
      | Inr fs \<Rightarrow> tasks_after_orders env db rest (launch_each env db storder fs ts))"

subsection \<open>A small server: four files, one standing order\<close>

text \<open>
  The order \<open>to-B\<close> asks for the files named like \<open>%.uv\<close>. The file \<open>c.uv\<close> bears the
  order's success event; a copy of \<open>a.uv\<close> for the order ended in an exception, one of
  \<open>b.uv\<close> is under way. The JSON parser of the example knows two texts, the search of
  the order and the default search.
\<close>

definition ex_order :: StandingOrder where
  "ex_order = \<lparr>so_id = 1, so_name = ''to-B'', so_search = ''uv-files'', so_conn_name = ''B''\<rparr>"

definition ex_file :: "string \<Rightarrow> File" where
  "ex_file n = \<lparr>file_name = n, file_type = ''uv'', file_source = ''correlator'', file_size = 10,
     file_obsid = 1, create_time = 100\<rparr>"

definition ex_db :: Database where
  "ex_db = \<lparr>observations = [], files = [ex_file ''a.uv'', ex_file ''b.uv'', ex_file ''c.uv'',
       ex_file ''a.txt''],
     file_instances = [],
     file_events =
       [\<lparr>file_event_name = ''c.uv'', file_event_type = ''standing_order_succeeded:to-B''\<rparr>],
     standing_orders = [ex_order]\<rparr>"



definition ex_tasks :: "BackgroundTask list" where
  "ex_tasks =
     [Uploader \<lparr>store_path = ''/data/2459000/a.uv'', standing_order_name = Some ''to-B'',
        exception = Some ''IOError''\<rparr>,
      Uploader \<lparr>store_path = ''/data/2459000/b.uv'', standing_order_name = Some ''to-B'',
        exception = None\<rparr>,
      OtherTask]"

definition ex_server_env :: "string option \<Rightarrow> ServerEnv" where
  "ex_server_env mode =
     \<lparr>json_loads =
        (\<lambda>s. if s = ''uv-files'' then Some (JDict [(''name-matches'', JStr ''%.uv'')])
             else if s = join_lines (filter_comments default_search)
             then Some (JDict [(''name-matches'', JStr ''any-file-named-like-%-this''),
                               (''not-older-than'', JInt 14)])
             else None),
      utcnow = 1000,
      tm_hour = (\<lambda>t. if t < 1700000300 then 7 else 8),
      standing_order_mode = mode,
      launch_copy_by_file_name =
        (\<lambda>db f conn so ts.
           (False, ts @ [Uploader \<lparr>store_path = ''/data/'' @ f, standing_order_name = Some so,
                          exception = None\<rparr>]))\<rparr>"

definition ex_world :: World where
  "ex_world = \<lparr>database = ex_db, tasks = ex_tasks, last_check = 0, launch_queued = False,
     call_later = [], stord_log = []\<rparr>"


section \<open>Lemmas about the clone orchestrator\<close>

lemma on_transfer_simps [simp]:
  "stores (on_transfer k f st) = stores st"
  "instances (on_transfer k f st) = instances st"
  "calls (on_transfer k f st) = calls st"
  "logs (on_transfer k f st) = logs st"
  "transfers (on_transfer k f st) = (transfers st)[k := f (transfers st ! k)]"
  by (simp_all add: on_transfer_def)

lemma do_call_simps [simp]:
  "stores (do_call c st) = stores st"
  "instances (do_call c st) = instances st"
  "transfers (do_call c st) = transfers st"
  "calls (do_call c st) = calls st @ [c]"
  "logs (do_call c st) = logs st"
  by (simp_all add: do_call_def)

lemma do_log_simps [simp]:
  "stores (do_log l st) = stores st"
  "instances (do_log l st) = instances st"
  "transfers (do_log l st) = transfers st"
  "calls (do_log l st) = calls st"
  "logs (do_log l st) = logs st @ [l]"
  by (simp_all add: do_log_def)

lemma transfer_loop_frame:
  "transfer_loop env sf sto inst sp k tms (s, n, st) = (s', n', st') \<Longrightarrow>
     stores st' = stores st \<and> instances st' = instances st \<and>
     (\<exists>t. transfers st' = (transfers st)[k := t]) \<and> (\<exists>cs. calls st' = calls st @ cs)"
proof (induction tms arbitrary: s n st)
  case Nil
  then show ?case by (auto intro: exI[of _ "transfers st ! k"])
next
  case (Cons tm tms)
  show ?case
  proof (cases "transfer_out env (calls st) (store_id sf) (Path (path inst)) sp tm")
    case None
    with Cons.prems Cons.IH[of s "Some tm" "on_transfer k fail_transfer (do_log (LogSourceMissing (path inst)) (do_call (TransferOut (store_id sf) (Path (path inst)) sp tm) st))"]
    show ?thesis by (auto simp: Let_def)
  next
    case (Some b)
    show ?thesis
    proof (cases b)
      case True
      with Some Cons.prems Cons.IH[of True "Some tm" "do_call (TransferOut (store_id sf) (Path (path inst)) sp tm) st"]
      show ?thesis by (auto simp: Let_def)
    next
      case False
      with Some Cons.prems Cons.IH[of False "Some tm" "on_transfer k fail_transfer (do_log (LogManagerFailed (path inst) tm) (do_call (TransferOut (store_id sf) (Path (path inst)) sp tm) st))"]
      show ?thesis by (auto simp: Let_def)
    qed
  qed
qed


lemma find_None_iff2: "(find P xs \<noteq> None) = (\<exists>x\<in>set xs. P x)"
  by (induction xs) auto

lemma find_SomeD: "find P xs = Some y \<Longrightarrow> y \<in> set xs \<and> P y"
  by (induction xs) (auto split: if_splits)

lemma clone_instance_Unnecessary:
  "clone_instance env sf sto inst st = (Unnecessary, st') \<Longrightarrow>
     has_clone sto inst st \<and> st' = do_log LogAlreadyExists st"
  by (auto simp: clone_instance_def has_clone_def Let_def
           split: if_splits option.splits prod.splits dest: find_SomeD)

lemma clone_instance_skip:
  "has_clone sto inst st \<Longrightarrow>
     clone_instance env sf sto inst st = (Unnecessary, do_log LogAlreadyExists st)"
  unfolding clone_instance_def has_clone_def find_None_iff2 by (simp only: if_True)

lemma clone_instance_Failed:
  "clone_instance env sf sto inst st = (Failed, st') \<Longrightarrow>
     stores st' = stores st \<and> instances st' = instances st \<and>
     (\<exists>t. transfers st' = transfers st @ [t] \<and> status t = FAILED)"
  by (auto simp: clone_instance_def Let_def fail_transfer_def
           split: if_splits option.splits prod.splits dest!: transfer_loop_frame)

lemma clone_instance_Cloned:
  "clone_instance env sf sto inst st = (Cloned, st') \<Longrightarrow>
     stores st' = stores st \<and>
     (\<exists>t n sp. transfers st' = transfers st @ [t] \<and> status t = COMPLETED \<and>
        instances st' = instances st @ [n] \<and> path n = path inst \<and>
        instance_file n = instance_file inst \<and> store n = store_id sto \<and>
        deletion_policy n = deletion_policy inst \<and>
        destination_instance_id t = Some (instance_id n) \<and>
        Commit (store_id sto) sp (Path (orm_file_name (instance_file inst))) \<in> set (calls st'))"
  by (auto simp: clone_instance_def Let_def new_instance_def
           split: if_splits option.splits prod.splits dest!: transfer_loop_frame)


lemma clone_instance_calls:
  "clone_instance env sf sto inst st = (out, st') \<Longrightarrow> \<exists>cs. calls st' = calls st @ cs"
  by (auto simp: clone_instance_def Let_def
           split: if_splits option.splits prod.splits dest!: transfer_loop_frame)

lemma clone_of_mono: "clone_of sto cs i n \<Longrightarrow> clone_of sto (cs @ cs') i n"
  by (auto simp: clone_of_def)

lemma clone_instance_step:
  assumes "clone_instance env sf sto inst st = (out, st')"
  shows "stores st' = stores st"
    and "\<exists>new. transfers st' = transfers st @ new \<and> (\<forall>t\<in>set new. terminal t)"
    and "\<exists>newi. instances st' = instances st @ newi \<and> (\<forall>n\<in>set newi. clone_of sto (calls st') inst n)"
proof -
  show "stores st' = stores st"
    using assms clone_instance_Unnecessary[of env sf sto inst st st']
      clone_instance_Failed[of env sf sto inst st st'] clone_instance_Cloned[of env sf sto inst st st']
    by (cases out) auto
  show "\<exists>new. transfers st' = transfers st @ new \<and> (\<forall>t\<in>set new. terminal t)"
  proof (cases out)
    case Unnecessary
    with assms clone_instance_Unnecessary[of env sf sto inst st st'] show ?thesis by auto
  next
    case Failed
    with assms clone_instance_Failed[of env sf sto inst st st'] show ?thesis
      by (auto simp: terminal_def)
  next
    case Cloned
    with assms clone_instance_Cloned[of env sf sto inst st st'] show ?thesis
      by (auto simp: terminal_def)
  qed
  show "\<exists>newi. instances st' = instances st @ newi \<and> (\<forall>n\<in>set newi. clone_of sto (calls st') inst n)"
  proof (cases out)
    case Unnecessary
    with assms clone_instance_Unnecessary[of env sf sto inst st st'] show ?thesis by auto
  next
    case Failed
    with assms clone_instance_Failed[of env sf sto inst st st'] show ?thesis by auto
  next
    case Cloned
    with assms clone_instance_Cloned[of env sf sto inst st st'] show ?thesis
      by (auto simp: clone_of_def)
  qed
qed

lemma clone_loop_step:
  "clone_loop env sf sto (inst # rest) (s, u, st) =
     (case clone_instance env sf sto inst st of
        (out, st1) \<Rightarrow>
          clone_loop env sf sto rest
            (if out = Cloned then s + 1 else s, if out = Unnecessary then u + 1 else u, st1))"
  by (auto split: prod.splits CloneOutcome.splits)

lemma clone_loop_frame:
  "clone_loop env sf sto insts (s, u, st) = (s', u', st') \<Longrightarrow>
     stores st' = stores st \<and>
     (\<exists>cs. calls st' = calls st @ cs) \<and>
     (\<exists>new. transfers st' = transfers st @ new \<and> (\<forall>t\<in>set new. terminal t)) \<and>
     (\<exists>newi. instances st' = instances st @ newi \<and>
        (\<forall>n\<in>set newi. \<exists>i\<in>set insts. clone_of sto (calls st') i n))"
proof (induction insts arbitrary: s u st)
  case Nil
  then show ?case by simp
next
  case (Cons inst rest)
  obtain out st1 where ci: "clone_instance env sf sto inst st = (out, st1)"
    by (cases "clone_instance env sf sto inst st")
  from Cons.prems ci have loop:
    "clone_loop env sf sto rest
       (if out = Cloned then s + 1 else s, if out = Unnecessary then u + 1 else u, st1) = (s', u', st')"
    by (simp only: clone_loop_step split: prod.splits) simp
  note ih = Cons.IH[OF loop]
  note st = clone_instance_step[OF ci]
  from ih obtain cs2 where cs2: "calls st' = calls st1 @ cs2" by blast
  from clone_instance_calls[OF ci] obtain cs1 where cs1: "calls st1 = calls st @ cs1" by blast
  from st(2) obtain new1 where n1: "transfers st1 = transfers st @ new1" "\<forall>t\<in>set new1. terminal t"
    by blast
  from ih obtain new2 where n2: "transfers st' = transfers st1 @ new2" "\<forall>t\<in>set new2. terminal t"
    by blast
  from st(3) obtain i1 where i1: "instances st1 = instances st @ i1"
    "\<forall>n\<in>set i1. clone_of sto (calls st1) inst n" by blast
  from ih obtain i2 where i2: "instances st' = instances st1 @ i2"
    "\<forall>n\<in>set i2. \<exists>i\<in>set rest. clone_of sto (calls st') i n" by blast
  have a: "stores st' = stores st" using ih st(1) by simp
  have b: "\<exists>cs. calls st' = calls st @ cs" using cs1 cs2 by simp
  have c: "\<exists>new. transfers st' = transfers st @ new \<and> (\<forall>t\<in>set new. terminal t)"
    using n1 n2 by (intro exI[of _ "new1 @ new2"]) auto
  have d: "\<exists>newi. instances st' = instances st @ newi \<and>
        (\<forall>n\<in>set newi. \<exists>i\<in>set (inst # rest). clone_of sto (calls st') i n)"
  proof (intro exI[of _ "i1 @ i2"] conjI ballI)
    show "instances st' = instances st @ i1 @ i2" using i1 i2 by simp
  next
    fix n assume "n \<in> set (i1 @ i2)"
    then consider "n \<in> set i1" | "n \<in> set i2" by auto
    then show "\<exists>i\<in>set (inst # rest). clone_of sto (calls st') i n"
    proof cases
      case 1
      with i1(2) have "clone_of sto (calls st1) inst n" by blast
      then have "clone_of sto (calls st') inst n" unfolding cs2 by (rule clone_of_mono)
      then show ?thesis by auto
    next
      case 2
      with i2(2) show ?thesis by auto
    qed
  qed
  from a b c d show ?case by blast
qed



lemma has_clone_mono:
  "has_clone sto i st \<Longrightarrow> instances st' = instances st @ new \<Longrightarrow> has_clone sto i st'"
  by (auto simp: has_clone_def)

lemma clone_instance_has_clone:
  assumes "clone_instance env sf sto inst st = (out, st')" "out \<noteq> Failed"
  shows "has_clone sto inst st'"
proof (cases out)
  case Unnecessary
  with assms clone_instance_Unnecessary[of env sf sto inst st st'] show ?thesis
    by (auto simp: has_clone_def)
next
  case Failed
  with assms show ?thesis by simp
next
  case Cloned
  with assms clone_instance_Cloned[of env sf sto inst st st'] show ?thesis
    by (auto simp: has_clone_def)
qed

lemma clone_loop_counts:
  "clone_loop env sf sto insts (s, u, st) = (s', u', st') \<Longrightarrow>
     s' + u' \<le> s + u + length insts \<and>
     (s' + u' = s + u + length insts \<longrightarrow> (\<forall>i\<in>set insts. has_clone sto i st'))"
proof (induction insts arbitrary: s u st)
  case Nil
  then show ?case by simp
next
  case (Cons inst rest)
  obtain out st1 where ci: "clone_instance env sf sto inst st = (out, st1)"
    by (cases "clone_instance env sf sto inst st")
  define s1 where "s1 = (if out = Cloned then s + 1 else s)"
  define u1 where "u1 = (if out = Unnecessary then u + 1 else u)"
  from Cons.prems ci have loop: "clone_loop env sf sto rest (s1, u1, st1) = (s', u', st')"
    unfolding s1_def u1_def by (simp only: clone_loop_step split: prod.splits) simp
  note ih = Cons.IH[OF loop]
  have su: "s1 + u1 = s + u + (if out = Failed then 0 else 1)"
    unfolding s1_def u1_def by (cases out) auto
  from ih have le0: "s' + u' \<le> s1 + u1 + length rest" by blast
  have le: "s' + u' \<le> s + u + length (inst # rest)"
    using le0 su by (cases "out = Failed") simp_all
  have all: "\<forall>i\<in>set (inst # rest). has_clone sto i st'"
    if eq: "s' + u' = s + u + length (inst # rest)"
  proof -
    from eq le0 su have nf: "out \<noteq> Failed" by (cases "out = Failed") simp_all
    with eq su have "s' + u' = s1 + u1 + length rest" by simp
    with ih have rest: "\<forall>i\<in>set rest. has_clone sto i st'" by blast
    from clone_instance_has_clone[OF ci nf] have h1: "has_clone sto inst st1" .
    from clone_loop_frame[OF loop] obtain newi where "instances st' = instances st1 @ newi"
      by blast
    from has_clone_mono[OF h1 this] rest show ?thesis by simp
  qed
  from le all show ?case by blast
qed

lemma has_clone_do_log [simp]: "has_clone sto i (do_log l st) = has_clone sto i st"
  by (simp add: has_clone_def)

lemma clone_loop_all_skip:
  "\<forall>i\<in>set insts. has_clone sto i st \<Longrightarrow>
     \<exists>st'. clone_loop env sf sto insts (s, u, st) = (s, u + length insts, st') \<and>
       stores st' = stores st \<and> instances st' = instances st \<and>
       transfers st' = transfers st \<and> calls st' = calls st"
proof (induction insts arbitrary: u st)
  case Nil
  then show ?case by simp
next
  case (Cons inst rest)
  from Cons.prems have h: "has_clone sto inst st" by simp
  from Cons.prems have "\<forall>i\<in>set rest. has_clone sto i (do_log LogAlreadyExists st)" by simp
  from Cons.IH[OF this, of "u + 1"] clone_instance_skip[OF h, of env sf]
  show ?case by auto
qed

lemma on_call_Returned:
  assumes "on_call env self st = (Returned, st')"
  obtains sf sto s u st1 where
    "get_store st (clone_from self) = Some sf" "get_store st (clone_to self) = Some sto"
    "clone_loop env sf sto (selected_instances env self sf st) (0, 0, st) = (s, u, st1)"
    "st' = do_log (LogSummary s u (length (selected_instances env self sf st))) st1"
  using assms unfolding on_call_def
  by (auto simp: Let_def split: option.splits prod.splits)

lemma clone_loop_new_count:
  "clone_loop env sf sto insts (s, u, st) = (s', u', st') \<Longrightarrow>
     length (instances st') + s = length (instances st) + s'"
proof (induction insts arbitrary: s u st)
  case Nil
  then show ?case by simp
next
  case (Cons inst rest)
  obtain out st1 where ci: "clone_instance env sf sto inst st = (out, st1)"
    by (cases "clone_instance env sf sto inst st")
  from Cons.prems ci have loop:
    "clone_loop env sf sto rest
       (if out = Cloned then s + 1 else s, if out = Unnecessary then u + 1 else u, st1) = (s', u', st')"
    by (simp only: clone_loop_step split: prod.splits) simp
  note ih = Cons.IH[OF loop]
  show ?case
  proof (cases out)
    case Unnecessary
    with ci clone_instance_Unnecessary[of env sf sto inst st st1] ih show ?thesis by auto
  next
    case Failed
    with ci clone_instance_Failed[of env sf sto inst st st1] ih show ?thesis by auto
  next
    case Cloned
    with ci clone_instance_Cloned[of env sf sto inst st st1] ih show ?thesis by auto
  qed
qed

lemma on_call_CancelJob:
  "on_call env self st = (CancelJob, st') \<Longrightarrow>
     stores st' = stores st \<and> instances st' = instances st \<and> transfers st' = transfers st \<and>
     calls st' = calls st"
  unfolding on_call_def by (auto simp: Let_def split: option.splits prod.splits)

lemma selected_instances_subset:
  "set (selected_instances env self sf st) \<subseteq> set (instances st)"
  by (auto simp: selected_instances_def Let_def)

lemma transfer_loop_link:
  "transfer_loop env sf sto inst sp k tms (s, n, st) = (s', n', st') \<Longrightarrow>
     k < length (transfers st) \<Longrightarrow>
     k < length (transfers st') \<and>
     source_store_id (transfers st' ! k) = source_store_id (transfers st ! k) \<and>
     destination_store_id (transfers st' ! k) = destination_store_id (transfers st ! k) \<and>
     source_instance_id (transfers st' ! k) = source_instance_id (transfers st ! k)"
proof (induction tms arbitrary: s n st)
  case Nil
  then show ?case by simp
next
  case (Cons tm tms)
  show ?case
  proof (cases "transfer_out env (calls st) (store_id sf) (Path (path inst)) sp tm")
    case None
    with Cons.prems Cons.IH[of s "Some tm" "on_transfer k fail_transfer (do_log (LogSourceMissing (path inst)) (do_call (TransferOut (store_id sf) (Path (path inst)) sp tm) st))"]
    show ?thesis by (auto simp: Let_def fail_transfer_def)
  next
    case (Some b)
    show ?thesis
    proof (cases b)
      case True
      with Some Cons.prems Cons.IH[of True "Some tm" "do_call (TransferOut (store_id sf) (Path (path inst)) sp tm) st"]
      show ?thesis by (auto simp: Let_def)
    next
      case False
      with Some Cons.prems Cons.IH[of False "Some tm" "on_transfer k fail_transfer (do_log (LogManagerFailed (path inst) tm) (do_call (TransferOut (store_id sf) (Path (path inst)) sp tm) st))"]
      show ?thesis by (auto simp: Let_def fail_transfer_def)
    qed
  qed
qed

lemma transfer_loop_row:
  assumes "transfer_loop env sf sto inst sp (length ts) tms (s, n, st) = (s', n', st')"
    and "transfers st = ts @ [t0]"
  shows "stores st' = stores st \<and> instances st' = instances st \<and>
     (\<exists>t. transfers st' = ts @ [t] \<and> source_store_id t = source_store_id t0 \<and>
        destination_store_id t = destination_store_id t0 \<and>
        source_instance_id t = source_instance_id t0)"
proof -
  from transfer_loop_frame[OF assms(1)] assms(2) obtain t where
    t: "transfers st' = ts @ [t]" by auto
  from transfer_loop_link[OF assms(1)] assms(2) t
  have "source_store_id t = source_store_id t0 \<and>
        destination_store_id t = destination_store_id t0 \<and>
        source_instance_id t = source_instance_id t0" by simp
  with t transfer_loop_frame[OF assms(1)] show ?thesis by blast
qed

lemma clone_instance_Cloned_link:
  "clone_instance env sf sto inst st = (Cloned, st') \<Longrightarrow>
     \<exists>t n. transfers st' = transfers st @ [t] \<and> instances st' = instances st @ [n] \<and>
       transfer_of sf sto inst n t"
  by (auto simp: clone_instance_def Let_def new_instance_def new_transfer_def transfer_of_def
           split: if_splits option.splits prod.splits
           dest!: transfer_loop_row[where ts = "transfers st"])


lemma clone_instance_links:
  assumes "clone_instance env sf sto inst st = (out, st')"
  shows "\<exists>new newi. transfers st' = transfers st @ new \<and> instances st' = instances st @ newi \<and>
     (\<forall>n\<in>set newi. clone_of sto (calls st') inst n \<and> (\<exists>t\<in>set new. transfer_of sf sto inst n t))"
proof (cases out)
  case Unnecessary
  with assms clone_instance_Unnecessary[of env sf sto inst st st'] show ?thesis by auto
next
  case Failed
  with assms clone_instance_Failed[of env sf sto inst st st'] show ?thesis by auto
next
  case Cloned
  with assms clone_instance_Cloned_link[of env sf sto inst st st']
    clone_instance_Cloned[of env sf sto inst st st'] show ?thesis
    by (auto simp: clone_of_def)
qed

lemma clone_loop_links:
  "clone_loop env sf sto insts (s, u, st) = (s', u', st') \<Longrightarrow>
     \<exists>new newi. transfers st' = transfers st @ new \<and> instances st' = instances st @ newi \<and>
       (\<forall>n\<in>set newi. \<exists>i\<in>set insts.
          clone_of sto (calls st') i n \<and> (\<exists>t\<in>set new. transfer_of sf sto i n t))"
proof (induction insts arbitrary: s u st)
  case Nil
  then show ?case by simp
next
  case (Cons inst rest)
  obtain out st1 where ci: "clone_instance env sf sto inst st = (out, st1)"
    by (cases "clone_instance env sf sto inst st")
  from Cons.prems ci have loop:
    "clone_loop env sf sto rest
       (if out = Cloned then s + 1 else s, if out = Unnecessary then u + 1 else u, st1) = (s', u', st')"
    by (simp only: clone_loop_step split: prod.splits) simp
  from clone_instance_links[OF ci] obtain new1 i1 where
    l1: "transfers st1 = transfers st @ new1" "instances st1 = instances st @ i1"
      "\<forall>n\<in>set i1. clone_of sto (calls st1) inst n \<and> (\<exists>t\<in>set new1. transfer_of sf sto inst n t)"
    by blast
  from Cons.IH[OF loop] obtain new2 i2 where
    l2: "transfers st' = transfers st1 @ new2" "instances st' = instances st1 @ i2"
      "\<forall>n\<in>set i2. \<exists>i\<in>set rest.
          clone_of sto (calls st') i n \<and> (\<exists>t\<in>set new2. transfer_of sf sto i n t)" by blast
  from clone_loop_frame[OF loop] obtain cs2 where cs2: "calls st' = calls st1 @ cs2" by blast
  show ?case
  proof (intro exI[of _ "new1 @ new2"] exI[of _ "i1 @ i2"] conjI ballI)
    show "transfers st' = transfers st @ new1 @ new2" using l1 l2 by simp
    show "instances st' = instances st @ i1 @ i2" using l1 l2 by simp
  next
    fix n assume "n \<in> set (i1 @ i2)"
    then consider "n \<in> set i1" | "n \<in> set i2" by auto
    then show "\<exists>i\<in>set (inst # rest).
       clone_of sto (calls st') i n \<and> (\<exists>t\<in>set (new1 @ new2). transfer_of sf sto i n t)"
    proof cases
      case 1
      with l1(3) have c: "clone_of sto (calls st1) inst n" and
        t: "\<exists>t\<in>set new1. transfer_of sf sto inst n t" by blast+
      from c have "clone_of sto (calls st') inst n" unfolding cs2 by (rule clone_of_mono)
      with t show ?thesis by auto
    next
      case 2
      with l2(3) show ?thesis by fastforce
    qed
  qed
qed

lemma selected_instances_store:
  "i \<in> set (selected_instances env self sf st) \<Longrightarrow> i \<in> set (instances st) \<and> store i = store_id sf"
  by (auto simp: selected_instances_def Let_def)

lemmas ex_defs = ex_store_A_def ex_store_B_def ex_instance_def ex_state_def ex_task_def ex_env_def
  ex_staged_def on_call_def get_store_def selected_instances_def timedelta_days_def
  clone_instance_def new_transfer_def new_instance_def fail_transfer_def fresh_id_def
  on_transfer_def do_call_def do_log_def Let_def

section \<open>Properties of the clone orchestrator\<close>

text \<open>
  C1. The claim: of several transfer managers, the first that reports success is recorded
  in \<open>transfer_manager_name\<close>, and no later manager is tried once one has succeeded.
  The loop has no \<open>break\<close>: in the run below both managers of store B succeed, the second
  one, \<open>rsync\<close>, is asked to transfer after \<open>local\<close> has succeeded, and it is \<open>rsync\<close> that
  is recorded.
\<close>

theorem later_manager_tried_and_recorded:
  "transfer_managers ex_store_B = [''local'', ''rsync''] \<and>
   map transfer_manager_name
     (transfers (snd (on_call (ex_env True (\<lambda>tm. Some True)) ex_task ex_state))) = [Some ''rsync''] \<and>
   calls (snd (on_call (ex_env True (\<lambda>tm. Some True)) ex_task ex_state)) =
     [Stage 2 10 ''F'',
      TransferOut 1 (Path ''2459000/F'') (Path ''/staging/stage-1/F'') ''local'',
      TransferOut 1 (Path ''2459000/F'') (Path ''/staging/stage-1/F'') ''rsync'',
      Commit 2 (Path ''/staging/stage-1/F'') (Path ''F''),
      Unstage 2 ''stage-1'']"
  by (simp add: ex_defs)

text \<open>
  C2. The claim: a transfer whose status is FAILED or COMPLETED never changes again in the
  run. In the run below the first manager reports no success and the second succeeds: when
  the loop over the managers ends the transfer is FAILED (and \<open>success\<close> is true), and the
  run then sets it to STAGED and leaves it COMPLETED.
\<close>

theorem failed_transfer_completed_later:
  "(case transfer_loop (ex_env True (\<lambda>tm. Some (tm = ''rsync''))) ex_store_A ex_store_B
           ex_instance (Path ''/staging/stage-1/F'') 0 [''local'', ''rsync'']
           (False, None, ex_staged) of
      (success, tm_name, st) \<Rightarrow>
        success \<and> tm_name = Some ''rsync'' \<and> map status (transfers st) = [FAILED]) \<and>
   (case on_call (ex_env True (\<lambda>tm. Some (tm = ''rsync''))) ex_task ex_state of
      (r, st) \<Rightarrow>
        map status (transfers st) = [COMPLETED] \<and>
        logs st = [LogManagerFailed ''2459000/F'' ''local'', LogSummary 1 0 1])"
  by (simp add: ex_defs)

text \<open>
  C3. Every transfer row that a run of \<open>on_call\<close> adds is COMPLETED or FAILED when the run
  ends, whatever the stores answer at the staging, transfer, commit and unstage steps; the
  rows that were there before are as they were. A run that is not cancelled ends with the
  summary line.
\<close>

theorem transfers_terminal_at_summary:
  assumes run: "on_call env self st = (r, st')"
  shows "(\<exists>new. transfers st' = transfers st @ new \<and>
            (\<forall>t\<in>set new. status t = COMPLETED \<or> status t = FAILED)) \<and>
         (r = Returned \<longrightarrow> (\<exists>s u n. last (logs st') = LogSummary s u n))"
proof (cases r)
  case CancelJob
  with run on_call_CancelJob[of env self st st'] show ?thesis by simp
next
  case Returned
  with run obtain sf sto s u st1 where
    loop: "clone_loop env sf sto (selected_instances env self sf st) (0, 0, st) = (s, u, st1)" and
    st': "st' = do_log (LogSummary s u (length (selected_instances env self sf st))) st1"
    by (auto elim: on_call_Returned)
  from clone_loop_frame[OF loop] obtain new where
    "transfers st1 = transfers st @ new" "\<forall>t\<in>set new. terminal t" by blast
  with st' show ?thesis by (auto simp: terminal_def)
qed

theorem transfers_terminal_at_summary_witness:
  "\<exists>new. new \<noteq> [] \<and>
     transfers (snd (on_call (ex_env True (\<lambda>tm. Some True)) ex_task ex_state)) =
       transfers ex_state @ new \<and>
     (\<forall>t\<in>set new. status t = COMPLETED \<or> status t = FAILED)"
proof -
  let ?r = "on_call (ex_env True (\<lambda>tm. Some True)) ex_task ex_state"
  have run: "?r = (fst ?r, snd ?r)" by simp
  have grown: "transfers (snd ?r) \<noteq> transfers ex_state" by (simp add: ex_defs)
  from transfers_terminal_at_summary[OF run] obtain new where
    new: "transfers (snd ?r) = transfers ex_state @ new"
      "\<forall>t\<in>set new. status t = COMPLETED \<or> status t = FAILED" by blast
  with grown have "new \<noteq> []" by auto
  with new show ?thesis by blast
qed

text \<open>
  C4. The claim: a second run, with no upload in between, adds no CloneTransfer row. In
  the run below staging fails in both runs: the first run leaves its transfer FAILED and
  no instance of the file on the destination, and the second run, at the same clock,
  selects the source instance again and adds a second row.
\<close>

theorem second_run_after_failure_adds_transfer:
  "(let env = ex_env False (\<lambda>tm. Some True);
        st1 = snd (on_call env ex_task ex_state);
        st2 = snd (on_call env ex_task st1)
    in map status (transfers st1) = [FAILED] \<and>
       map status (transfers st2) = [FAILED, FAILED] \<and>
       last (logs st2) = LogSummary 0 0 1)"
  by (simp add: ex_defs)

text \<open>
  C4, as amended. When the summary of the first run counts every selected instance as
  cloned or already present, a second run from the state the first one left, at a clock no
  earlier than the first run's, adds no transfer row and no instance and asks nothing of
  the stores: each of the \<open>m\<close> instances it selects is skipped and counted as unnecessary.
\<close>

theorem second_run_creates_no_transfer:
  assumes run1: "on_call env1 self st0 = (Returned, st1)"
    and summary: "last (logs st1) = LogSummary s u n" "s + u = n"
    and clock: "datetime_now env1 (calls st0) \<le> datetime_now env2 (calls st1)"
  shows "\<exists>st2 sf m. on_call env2 self st1 = (Returned, st2) \<and>
           transfers st2 = transfers st1 \<and> instances st2 = instances st1 \<and>
           calls st2 = calls st1 \<and>
           get_store st1 (clone_from self) = Some sf \<and>
           m = length (selected_instances env2 self sf st1) \<and>
           last (logs st2) = LogSummary 0 m m"
proof -
  from run1 obtain sf sto s0 u0 st1' where
    sf: "get_store st0 (clone_from self) = Some sf" and
    sto: "get_store st0 (clone_to self) = Some sto" and
    loop: "clone_loop env1 sf sto (selected_instances env1 self sf st0) (0, 0, st0) = (s0, u0, st1')" and
    st1: "st1 = do_log (LogSummary s0 u0 (length (selected_instances env1 self sf st0))) st1'"
    by (rule on_call_Returned)
  let ?sel1 = "selected_instances env1 self sf st0"
  let ?sel2 = "selected_instances env2 self sf st1"
  from summary st1 have "s0 + u0 = length ?sel1" by simp
  with clone_loop_counts[OF loop] have cl1: "\<forall>i\<in>set ?sel1. has_clone sto i st1'" by simp
  from clone_loop_frame[OF loop] obtain newi where
    stores1: "stores st1' = stores st0" and
    calls1: "\<exists>cs. calls st1' = calls st0 @ cs" and
    newi: "instances st1' = instances st0 @ newi"
      "\<forall>n\<in>set newi. \<exists>i\<in>set ?sel1. clone_of sto (calls st1') i n"
    by blast
  have stores: "stores st1 = stores st0" using st1 stores1 by simp
  have sf1: "get_store st1 (clone_from self) = Some sf" using sf stores by (simp add: get_store_def)
  have sto1: "get_store st1 (clone_to self) = Some sto" using sto stores by (simp add: get_store_def)
  have cl2: "has_clone sto i st1" if i: "i \<in> set ?sel2" for i
  proof (cases "store_id sf = store_id sto")
    case True
    with i show ?thesis
      by (auto simp: selected_instances_def has_clone_def Let_def)
  next
    case False
    from i have iin: "i \<in> set (instances st1)" and ist: "store i = store_id sf"
      and itime: "created_time i > datetime_now env2 (calls st1) - timedelta_days (age_in_days self)"
      by (auto simp: selected_instances_def Let_def)
    from newi(2) have "\<forall>n\<in>set newi. store n = store_id sto" by (auto simp: clone_of_def)
    with ist False have "i \<notin> set newi" by auto
    with iin st1 newi(1) have "i \<in> set (instances st0)" by simp
    moreover from itime clock
    have "created_time i > datetime_now env1 (calls st0) - timedelta_days (age_in_days self)"
      by simp
    ultimately have "i \<in> set ?sel1" using ist by (simp add: selected_instances_def Let_def)
    with cl1 have "has_clone sto i st1'" by blast
    with st1 show ?thesis by simp
  qed
  then have "\<forall>i\<in>set ?sel2. has_clone sto i st1" by blast
  from clone_loop_all_skip[OF this, of env2 sf 0 0] obtain st2' where
    loop2: "clone_loop env2 sf sto ?sel2 (0, 0, st1) = (0, length ?sel2, st2')" and
    same: "stores st2' = stores st1" "instances st2' = instances st1"
      "transfers st2' = transfers st1" "calls st2' = calls st1"
    by auto
  have "on_call env2 self st1 =
          (Returned, do_log (LogSummary 0 (length ?sel2) (length ?sel2)) st2')"
    using sf1 sto1 loop2 by (simp add: on_call_def Let_def)
  with same sf1 show ?thesis by simp
qed

theorem second_run_creates_no_transfer_witness:
  "(let env = ex_env True (\<lambda>tm. Some True);
        st1 = snd (on_call env ex_task ex_state)
    in \<exists>st2. on_call env ex_task st1 = (Returned, st2) \<and> transfers st2 = transfers st1 \<and>
         length (transfers st1) = 1 \<and> last (logs st2) = LogSummary 0 1 1)"
proof -
  let ?env = "ex_env True (\<lambda>tm. Some True)"
  let ?st1 = "snd (on_call ?env ex_task ex_state)"
  have run1: "on_call ?env ex_task ex_state = (Returned, ?st1)" by (simp add: ex_defs)
  have summary: "last (logs ?st1) = LogSummary 1 0 1" by (simp add: ex_defs)
  have clock: "datetime_now ?env (calls ex_state) \<le> datetime_now ?env (calls ?st1)"
    by (simp add: ex_env_def)
  have sf: "get_store ?st1 (clone_from ex_task) = Some ex_store_A" by (simp add: ex_defs)
  have sel: "length (selected_instances ?env ex_task ex_store_A ?st1) = 1" by (simp add: ex_defs)
  have len: "length (transfers ?st1) = 1" by (simp add: ex_defs)
  from second_run_creates_no_transfer[OF run1 summary _ clock] sf sel len
  show ?thesis by (auto simp: Let_def)
qed

text \<open>
  C9. Every instance a run adds is the clone of one of the instances the run selected on
  the source store: it is on the destination store, it has the selected instance's
  \<open>path\<close> as it is, its file and its deletion policy, and a transfer row added by the
  same run is COMPLETED, goes from the source store to the destination store, and names
  the selected instance as its source and the new instance as its destination. The stores
  were asked to commit the bytes on the destination store under the bare file name. A
  run that is not cancelled adds as many instances as its summary counts successful
  clones. The recorded path and the committed path can differ: in the run of the small
  librarian the new instance has the path \<open>2459000/F\<close> and the commit went to \<open>F\<close>.
\<close>

theorem new_instance_keeps_source_path:
  "(\<forall>env self st r st'. on_call env self st = (r, st') \<longrightarrow>
      (\<exists>newi newt. instances st' = instances st @ newi \<and>
         transfers st' = transfers st @ newt \<and>
         (\<forall>n\<in>set newi. \<exists>store_from store_to.
            get_store st (clone_from self) = Some store_from \<and>
            get_store st (clone_to self) = Some store_to \<and>
            (\<exists>i\<in>set (selected_instances env self store_from st). \<exists>t\<in>set newt. \<exists>sp.
               i \<in> set (instances st) \<and> store i = store_id store_from \<and>
               store n = store_id store_to \<and>
               path n = path i \<and> instance_file n = instance_file i \<and>
               deletion_policy n = deletion_policy i \<and>
               status t = COMPLETED \<and>
               source_store_id t = store_id store_from \<and>
               destination_store_id t = store_id store_to \<and>
               source_instance_id t = instance_id i \<and>
               destination_instance_id t = Some (instance_id n) \<and>
               Commit (store n) sp (Path (orm_file_name (instance_file i))) \<in> set (calls st'))) \<and>
         (r = Returned \<longrightarrow> (\<exists>u m. last (logs st') = LogSummary (length newi) u m)))) \<and>
   (\<exists>env self st n sp p.
      n \<in> set (instances (snd (on_call env self st))) \<and> n \<notin> set (instances st) \<and>
      Commit (store n) sp (Path p) \<in> set (calls (snd (on_call env self st))) \<and>
      (\<forall>sp' p'. Commit (store n) sp' (Path p') \<in> set (calls (snd (on_call env self st)))
         \<longrightarrow> p' = p) \<and>
      p \<noteq> path n)"
proof (intro conjI allI impI)
  fix env self st r st'
  assume run: "on_call env self st = (r, st')"
  show "\<exists>newi newt. instances st' = instances st @ newi \<and>
         transfers st' = transfers st @ newt \<and>
         (\<forall>n\<in>set newi. \<exists>store_from store_to.
            get_store st (clone_from self) = Some store_from \<and>
            get_store st (clone_to self) = Some store_to \<and>
            (\<exists>i\<in>set (selected_instances env self store_from st). \<exists>t\<in>set newt. \<exists>sp.
               i \<in> set (instances st) \<and> store i = store_id store_from \<and>
               store n = store_id store_to \<and>
               path n = path i \<and> instance_file n = instance_file i \<and>
               deletion_policy n = deletion_policy i \<and>
               status t = COMPLETED \<and>
               source_store_id t = store_id store_from \<and>
               destination_store_id t = store_id store_to \<and>
               source_instance_id t = instance_id i \<and>
               destination_instance_id t = Some (instance_id n) \<and>
               Commit (store n) sp (Path (orm_file_name (instance_file i))) \<in> set (calls st'))) \<and>
         (r = Returned \<longrightarrow> (\<exists>u m. last (logs st') = LogSummary (length newi) u m))"
  proof (cases r)
    case CancelJob
    with run on_call_CancelJob[of env self st st'] show ?thesis by simp
  next
    case Returned
    with run obtain sf sto s u st1 where
      sf: "get_store st (clone_from self) = Some sf" and
      sto: "get_store st (clone_to self) = Some sto" and
      loop: "clone_loop env sf sto (selected_instances env self sf st) (0, 0, st) = (s, u, st1)" and
      st': "st' = do_log (LogSummary s u (length (selected_instances env self sf st))) st1"
      by (auto elim: on_call_Returned)
    from clone_loop_links[OF loop] obtain newt newi where
      links: "transfers st1 = transfers st @ newt" "instances st1 = instances st @ newi"
        "\<forall>n\<in>set newi. \<exists>i\<in>set (selected_instances env self sf st).
            clone_of sto (calls st1) i n \<and> (\<exists>t\<in>set newt. transfer_of sf sto i n t)"
      by blast
    from clone_loop_new_count[OF loop] links(2) have cnt: "length newi = s" by simp
    have "\<exists>i\<in>set (selected_instances env self sf st). \<exists>t\<in>set newt. \<exists>sp.
               i \<in> set (instances st) \<and> store i = store_id sf \<and>
               store n = store_id sto \<and>
               path n = path i \<and> instance_file n = instance_file i \<and>
               deletion_policy n = deletion_policy i \<and>
               status t = COMPLETED \<and>
               source_store_id t = store_id sf \<and>
               destination_store_id t = store_id sto \<and>
               source_instance_id t = instance_id i \<and>
               destination_instance_id t = Some (instance_id n) \<and>
               Commit (store n) sp (Path (orm_file_name (instance_file i))) \<in> set (calls st')"
      if "n \<in> set newi" for n
    proof -
      from that links(3) obtain i t where
        i: "i \<in> set (selected_instances env self sf st)" and c: "clone_of sto (calls st1) i n" and
        t: "t \<in> set newt" and l: "transfer_of sf sto i n t" by blast
      from c obtain sp where
        sp: "Commit (store n) sp (Path (orm_file_name (instance_file i))) \<in> set (calls st')"
        unfolding clone_of_def st' by auto
      from selected_instances_store[OF i] c l sp
      have "i \<in> set (instances st) \<and> store i = store_id sf \<and>
               store n = store_id sto \<and>
               path n = path i \<and> instance_file n = instance_file i \<and>
               deletion_policy n = deletion_policy i \<and>
               status t = COMPLETED \<and>
               source_store_id t = store_id sf \<and>
               destination_store_id t = store_id sto \<and>
               source_instance_id t = instance_id i \<and>
               destination_instance_id t = Some (instance_id n) \<and>
               Commit (store n) sp (Path (orm_file_name (instance_file i))) \<in> set (calls st')"
        unfolding clone_of_def transfer_of_def by simp
      with i t show ?thesis by blast
    qed
    with links(1,2) cnt st' sf sto show ?thesis by auto
  qed
next
  let ?env = "ex_env True (\<lambda>tm. Some True)"
  let ?n = "\<lparr>instance_id = 2, path = ''2459000/F'',
     instance_file = \<lparr>orm_file_name = ''F'', orm_file_size = 10\<rparr>, store = 2,
     deletion_policy = ''DISALLOWED'', created_time = 2000\<rparr>"
  have "?n \<in> set (instances (snd (on_call ?env ex_task ex_state))) \<and>
      ?n \<notin> set (instances ex_state) \<and>
      Commit (store ?n) (Path ''/staging/stage-1/F'') (Path ''F'')
        \<in> set (calls (snd (on_call ?env ex_task ex_state))) \<and>
      (\<forall>sp' p'. Commit (store ?n) sp' (Path p') \<in> set (calls (snd (on_call ?env ex_task ex_state)))
         \<longrightarrow> p' = ''F'') \<and>
      ''F'' \<noteq> path ?n"
    by (simp add: ex_defs)
  then show "\<exists>env self st n sp p.
      n \<in> set (instances (snd (on_call env self st))) \<and> n \<notin> set (instances st) \<and>
      Commit (store n) sp (Path p) \<in> set (calls (snd (on_call env self st))) \<and>
      (\<forall>sp' p'. Commit (store n) sp' (Path p') \<in> set (calls (snd (on_call env self st)))
         \<longrightarrow> p' = p) \<and>
      p \<noteq> path n"
    by blast
qed


theorem new_instance_keeps_source_path_witness:
  "(let st' = snd (on_call (ex_env True (\<lambda>tm. Some True)) ex_task ex_state)
    in \<exists>n t sp. instances st' = instances ex_state @ [n] \<and> transfers st' = [t] \<and>
         path n = path ex_instance \<and> instance_file n = instance_file ex_instance \<and>
         store n = store_id ex_store_B \<and> status t = COMPLETED \<and>
         source_store_id t = store_id ex_store_A \<and>
         destination_store_id t = store_id ex_store_B \<and>
         source_instance_id t = instance_id ex_instance \<and>
         destination_instance_id t = Some (instance_id n) \<and>
         Commit (store n) sp (Path ''F'') \<in> set (calls st') \<and>
         last (logs st') = LogSummary 1 0 1)"
proof -
  let ?r = "on_call (ex_env True (\<lambda>tm. Some True)) ex_task ex_state"
  have run: "?r = (Returned, snd ?r)" by (simp add: ex_defs)
  have summary: "last (logs (snd ?r)) = LogSummary 1 0 1" by (simp add: ex_defs)
  have one: "length (transfers (snd ?r)) = 1" by (simp add: ex_defs)
  have sf: "get_store ex_state (clone_from ex_task) = Some ex_store_A" by (simp add: ex_defs)
  have sto: "get_store ex_state (clone_to ex_task) = Some ex_store_B" by (simp add: ex_defs)
  have insts: "instances ex_state = [ex_instance]" "transfers ex_state = []"
    by (simp_all add: ex_state_def)
  from new_instance_keeps_source_path[THEN conjunct1, rule_format, OF run] obtain newi newt where
    newi: "instances (snd ?r) = instances ex_state @ newi"
      "transfers (snd ?r) = transfers ex_state @ newt"
      "\<forall>n\<in>set newi. \<exists>store_from store_to.
            get_store ex_state (clone_from ex_task) = Some store_from \<and>
            get_store ex_state (clone_to ex_task) = Some store_to \<and>
            (\<exists>i\<in>set (selected_instances (ex_env True (\<lambda>tm. Some True)) ex_task store_from ex_state).
             \<exists>t\<in>set newt. \<exists>sp.
               i \<in> set (instances ex_state) \<and> store i = store_id store_from \<and>
               store n = store_id store_to \<and>
               path n = path i \<and> instance_file n = instance_file i \<and>
               deletion_policy n = deletion_policy i \<and>
               status t = COMPLETED \<and>
               source_store_id t = store_id store_from \<and>
               destination_store_id t = store_id store_to \<and>
               source_instance_id t = instance_id i \<and>
               destination_instance_id t = Some (instance_id n) \<and>
               Commit (store n) sp (Path (orm_file_name (instance_file i))) \<in> set (calls (snd ?r)))"
      "\<exists>u m. last (logs (snd ?r)) = LogSummary (length newi) u m" by blast
  from newi(4) summary have "length newi = 1" by simp
  then obtain n where n: "newi = [n]" by (cases newi) auto
  from newi(2) one insts(2) have "length newt = 1" by simp
  then obtain t0 where t0: "newt = [t0]" by (cases newt) auto
  from newi(3) n t0 sf sto insts(1) have "\<exists>sp.
      store n = store_id ex_store_B \<and> path n = path ex_instance \<and>
      instance_file n = instance_file ex_instance \<and> status t0 = COMPLETED \<and>
      source_store_id t0 = store_id ex_store_A \<and> destination_store_id t0 = store_id ex_store_B \<and>
      source_instance_id t0 = instance_id ex_instance \<and>
      destination_instance_id t0 = Some (instance_id n) \<and>
      Commit (store n) sp (Path (orm_file_name (instance_file ex_instance))) \<in> set (calls (snd ?r))"
    by auto
  moreover have "orm_file_name (instance_file ex_instance) = ''F''" by (simp add: ex_instance_def)
  ultimately have "\<exists>sp.
      store n = store_id ex_store_B \<and> path n = path ex_instance \<and>
      instance_file n = instance_file ex_instance \<and> status t0 = COMPLETED \<and>
      source_store_id t0 = store_id ex_store_A \<and> destination_store_id t0 = store_id ex_store_B \<and>
      source_instance_id t0 = instance_id ex_instance \<and>
      destination_instance_id t0 = Some (instance_id n) \<and>
      Commit (store n) sp (Path ''F'') \<in> set (calls (snd ?r))" by auto
  with n t0 newi(1,2) insts(2) summary show ?thesis by (auto simp: Let_def)
qed

section \<open>Lemmas about the search compiler\<close>


lemma file_table: "the_file_search_compiler =
  [(''and'', impl_do_and), (''or'', impl_do_or),
  (''none-of'', impl_do_none_of), (''always-true'', impl_do_always_true),
  (''always-false'', impl_do_always_false),
  (''name-is-exactly'', impl_do_str_is_exactly (Column ''name'')),
  (''name-is-not'', impl_do_str_is_not (Column ''name'')),
  (''name-matches'', impl_do_str_matches (Column ''name'')),
  (''type-is-exactly'', impl_do_str_is_exactly (Column ''type'')),
  (''type-is-not'', impl_do_str_is_not (Column ''type'')),
  (''type-matches'', impl_do_str_matches (Column ''type'')),
  (''source-is-exactly'', impl_do_str_is_exactly (Column ''source'')),
  (''source-is-not'', impl_do_str_is_not (Column ''source'')),
  (''source-matches'', impl_do_str_matches (Column ''source'')),
  (''size-is-exactly'', impl_do_int_is_exactly (Column ''size'')),
  (''size-is-not'', impl_do_int_is_not (Column ''size'')),
  (''size-greater-than'', impl_do_num_greater_than (Column ''size'')),
  (''size-less-than'', impl_do_num_less_than (Column ''size'')),
  (''size-in-range'', impl_do_num_in_range (Column ''size'')),
  (''size-not-in-range'', impl_do_num_not_in_range (Column ''size'')),
  (''obsid-is-exactly'', impl_do_int_is_exactly (Column ''obsid'')),
  (''obsid-is-not'', impl_do_int_is_not (Column ''obsid'')),
  (''obsid-greater-than'', impl_do_num_greater_than (Column ''obsid'')),
  (''obsid-less-than'', impl_do_num_less_than (Column ''obsid'')),
  (''obsid-in-range'', impl_do_num_in_range (Column ''obsid'')),
  (''obsid-not-in-range'', impl_do_num_not_in_range (Column ''obsid'')),
  (''num-instances-is-exactly'', impl_do_int_is_exactly file_get_num_instances),
  (''num-instances-is-not'', impl_do_int_is_not file_get_num_instances),
  (''num-instances-greater-than'', impl_do_num_greater_than file_get_num_instances),
  (''num-instances-less-than'', impl_do_num_less_than file_get_num_instances),
  (''num-instances-in-range'', impl_do_num_in_range file_get_num_instances),
  (''num-instances-not-in-range'', impl_do_num_not_in_range file_get_num_instances),
  (''obs-matches'', impl_do_obs_matches),
  (''name-like'', impl_do_str_matches (Column ''name'')),
  (''source-is'', impl_do_str_is_exactly (Column ''source'')),
  (''start-time-jd-greater-than'', impl_do_obs_sub_query),
  (''start-time-jd-less-than'', impl_do_obs_sub_query),
  (''start-time-jd-in-range'', impl_do_obs_sub_query),
  (''start-time-jd-not-in-range'', impl_do_obs_sub_query),
  (''stop-time-jd-greater-than'', impl_do_obs_sub_query),
  (''stop-time-jd-less-than'', impl_do_obs_sub_query),
  (''stop-time-jd-in-range'', impl_do_obs_sub_query),
  (''stop-time-jd-not-in-range'', impl_do_obs_sub_query),
  (''start-lst-hr-greater-than'', impl_do_obs_sub_query),
  (''start-lst-hr-less-than'', impl_do_obs_sub_query),
  (''start-lst-hr-in-range'', impl_do_obs_sub_query),
  (''start-lst-hr-not-in-range'', impl_do_obs_sub_query),
  (''session-id-is-exactly'', impl_do_obs_sub_query),
  (''session-id-is-not'', impl_do_obs_sub_query),
  (''session-id-greater-than'', impl_do_obs_sub_query),
  (''session-id-less-than'', impl_do_obs_sub_query),
  (''session-id-in-range'', impl_do_obs_sub_query),
  (''session-id-not-in-range'', impl_do_obs_sub_query),
  (''not-older-than'', impl_do_not_older_than),
  (''not-newer-than'', impl_do_not_newer_than)]"
  by code_simp






lemma holds_in_range:
  "attr g = Some (VNum x) \<Longrightarrow>
     holds attr sub ct (SqlAnd [Ge g (VNum lo), Le g (VNum hi)]) = (lo \<le> x \<and> x \<le> hi)"
  by simp

lemma holds_not_in_range:
  "attr g = Some (VNum x) \<Longrightarrow>
     holds attr sub ct (SqlOr [Lt g (VNum lo), Gt g (VNum hi)]) = (x < lo \<or> hi < x)"
  by simp












section \<open>Properties of the standing orders and their manager\<close>

lemma stord_logger_simps [simp]:
  "database (stord_logger l w) = database w"
  "tasks (stord_logger l w) = tasks w"
  "last_check (stord_logger l w) = last_check w"
  "launch_queued (stord_logger l w) = launch_queued w"
  "call_later (stord_logger l w) = call_later w"
  "stord_log (stord_logger l w) = stord_log w @ [l]"
  by (simp_all add: stord_logger_def)

lemma evaluations_append [simp]: "evaluations (xs @ ys) = evaluations xs @ evaluations ys"
  by (simp add: evaluations_def)

lemma searches_run_append [simp]: "searches_run (xs @ ys) = searches_run xs + searches_run ys"
  by (simp add: searches_run_def)

lemma evaluations_Cons [simp]:
  "evaluations [] = []"
  "evaluations (l # ls) = (case l of LogEvaluating n \<Rightarrow> [n] | _ \<Rightarrow> []) @ evaluations ls"
  by (simp_all add: evaluations_def)

lemma searches_run_Cons [simp]:
  "searches_run [] = 0"
  "searches_run (l # ls) = (if l = LogRunningSearches then 1 else 0) + searches_run ls"
  by (simp_all add: searches_run_def)

lemma launch_copies_frame:
  "same_manager w (launch_copies env self fs w) \<and>
   evaluations (stord_log (launch_copies env self fs w)) = evaluations (stord_log w) \<and>
   searches_run (stord_log (launch_copies env self fs w)) = searches_run (stord_log w)"
proof (induction fs arbitrary: w)
  case Nil
  show ?case by (simp add: same_manager_def)
next
  case (Cons f rest)
  show ?case
    using Cons.IH
    by (auto simp: Let_def same_manager_def split: prod.splits)
qed

lemma StandingOrder_maybe_launch_copies_frame:
  "StandingOrder_maybe_launch_copies env self w = (r, w') \<Longrightarrow>
     same_manager w w' \<and>
     evaluations (stord_log w') = evaluations (stord_log w) @ [so_name self] \<and>
     searches_run (stord_log w') = searches_run (stord_log w)"
  using launch_copies_frame[of "stord_logger (LogEvaluating (so_name self)) w" env self]
  by (auto simp: StandingOrder_maybe_launch_copies_def Let_def same_manager_def split: sum.splits)

lemma evaluate_orders_frame:
  "evaluate_orders env orders w = (r, w') \<Longrightarrow>
     same_manager w w' \<and>
     searches_run (stord_log w') = searches_run (stord_log w) \<and>
     (\<exists>es. prefix es orders \<and>
        evaluations (stord_log w') = evaluations (stord_log w) @ map so_name es \<and>
        (r = None \<longrightarrow> es = orders))"
proof (induction orders arbitrary: w)
  case Nil
  then show ?case by (auto simp: same_manager_def)
next
  case (Cons storder rest)
  obtain r1 w1 where s1: "StandingOrder_maybe_launch_copies env storder w = (r1, w1)"
    by (cases "StandingOrder_maybe_launch_copies env storder w")
  note f1 = StandingOrder_maybe_launch_copies_frame[OF s1]
  show ?case
  proof (cases r1)
    case (Some e)
    with Cons.prems s1 have "r = Some e" "w' = w1" by auto
    with f1 show ?thesis
      by (auto intro!: exI[of _ "[storder]"])
  next
    case None
    with Cons.prems s1 have "evaluate_orders env rest w1 = (r, w')" by auto
    from Cons.IH[OF this] obtain es where
      a: "same_manager w1 w'" "searches_run (stord_log w') = searches_run (stord_log w1)" and
      es: "prefix es rest" "evaluations (stord_log w') = evaluations (stord_log w1) @ map so_name es"
        "r = None \<longrightarrow> es = rest"
      by blast
    from a f1 have "same_manager w w'" "searches_run (stord_log w') = searches_run (stord_log w)"
      by (auto simp: same_manager_def)
    moreover from es f1 have "prefix (storder # es) (storder # rest)"
      "evaluations (stord_log w') = evaluations (stord_log w) @ map so_name (storder # es)"
      "r = None \<longrightarrow> storder # es = storder # rest"
      by auto
    ultimately show ?thesis by blast
  qed
qed

lemma launch_copies_tasks:
  "tasks (launch_copies env self fs w) = launch_each env (database w) self fs (tasks w)"
proof (induction fs arbitrary: w)
  case Nil
  show ?case by (simp add: launch_each_def)
next
  case (Cons f rest)
  show ?case
    using Cons.IH
    by (auto simp: Let_def launch_each_def split: prod.splits)
qed

lemma StandingOrder_maybe_launch_copies_tasks:
  "StandingOrder_maybe_launch_copies env self w = (r, w') \<Longrightarrow>
     (case get_files_to_copy env (database w) (tasks w) self of
        Inl e \<Rightarrow> r = Some e
      | Inr fs \<Rightarrow> r = None \<and> tasks w' = launch_each env (database w) self fs (tasks w))"
  by (auto simp: StandingOrder_maybe_launch_copies_def Let_def launch_copies_tasks
           split: sum.splits)

lemma evaluate_orders_tasks:
  "evaluate_orders env orders w = (r, w') \<Longrightarrow>
     (case tasks_after_orders env (database w) orders (tasks w) of
        Some ts \<Rightarrow> r = None \<and> tasks w' = ts
      | None \<Rightarrow> r \<noteq> None)"
proof (induction orders arbitrary: w)
  case Nil
  then show ?case by simp
next
  case (Cons storder rest)
  obtain r1 w1 where s1: "StandingOrder_maybe_launch_copies env storder w = (r1, w1)"
    by (cases "StandingOrder_maybe_launch_copies env storder w")
  from StandingOrder_maybe_launch_copies_frame[OF s1] have db: "database w1 = database w"
    by (simp add: same_manager_def)
  note t1 = StandingOrder_maybe_launch_copies_tasks[OF s1]
  show ?case
  proof (cases "get_files_to_copy env (database w) (tasks w) storder")
    case (Inl e)
    with t1 have "r1 = Some e" by simp
    with Cons.prems s1 have "r = Some e" by simp
    with Inl show ?thesis by simp
  next
    case (Inr fs)
    with t1 have r1: "r1 = None" and
      ts: "tasks w1 = launch_each env (database w) storder fs (tasks w)" by simp_all
    from Cons.prems s1 r1 have "evaluate_orders env rest w1 = (r, w')" by simp
    from Cons.IH[OF this] Inr db ts show ?thesis by simp
  qed
qed

lemma rate_limited:
  "now - last_check w < MIN_STANDING_ORDER_INTERVAL \<Longrightarrow>
     maybe_launch_copies env now w = (Inr False, w)"
  by (simp add: maybe_launch_copies_def)

lemma evaluates:
  assumes mode: "standing_order_mode env \<noteq> Some ''disabled''"
      "\<not> (standing_order_mode env = Some ''nighttime'' \<and> 8 \<le> tm_hour env now \<and> tm_hour env now < 20)"
    and due: "\<not> now - last_check w < MIN_STANDING_ORDER_INTERVAL"
    and call: "maybe_launch_copies env now w = (r, w')"
  shows "r \<noteq> Inr False \<and> last_check w' = now \<and> database w' = database w \<and>
         launch_queued w' = launch_queued w \<and>
         searches_run (stord_log w') = searches_run (stord_log w) + 1 \<and>
         (\<exists>es. prefix es (standing_orders (database w)) \<and>
            evaluations (stord_log w') = evaluations (stord_log w) @ map so_name es \<and>
            (r = Inr True \<longrightarrow> es = standing_orders (database w)))"
proof -
  define md where "md = (case standing_order_mode env of None \<Rightarrow> ''normal'' | Some m \<Rightarrow> m)"
  define w0 where "w0 = (if md \<noteq> ''nighttime'' \<and> md \<noteq> ''normal''
                          then stord_logger (LogUnrecognizedMode md) w else w)"
  let ?w1 = "(stord_logger LogRunningSearches w0)\<lparr>last_check := now\<rparr>"
  obtain r1 w1 where ev: "evaluate_orders env (standing_orders (database ?w1)) ?w1 = (r1, w1)"
    by (cases "evaluate_orders env (standing_orders (database ?w1)) ?w1")
  from mode have m: "md \<noteq> ''disabled''"
    "\<not> (md = ''nighttime'' \<and> 8 \<le> tm_hour env now \<and> tm_hour env now < 20)"
    by (auto simp: md_def split: option.splits)
  from call due ev m have res: "w' = w1" "r = (case r1 of Some e \<Rightarrow> Inl e | None \<Rightarrow> Inr True)"
    by (auto simp: maybe_launch_copies_def md_def[symmetric] w0_def[symmetric] Let_def
             split: option.splits)
  have w0: "database w0 = database w" "launch_queued w0 = launch_queued w"
    "searches_run (stord_log w0) = searches_run (stord_log w)"
    "evaluations (stord_log w0) = evaluations (stord_log w)"
    by (simp_all add: w0_def)
  from evaluate_orders_frame[OF ev] res w0 show ?thesis
    by (auto simp: same_manager_def split: option.splits)
qed

lemma normal_evaluates:
  assumes mode: "standing_order_mode env = None \<or> standing_order_mode env = Some ''normal''"
    and due: "\<not> now - last_check w < MIN_STANDING_ORDER_INTERVAL"
    and call: "maybe_launch_copies env now w = (r, w')"
  shows "r \<noteq> Inr False \<and> last_check w' = now \<and> database w' = database w \<and>
         launch_queued w' = launch_queued w \<and>
         searches_run (stord_log w') = searches_run (stord_log w) + 1 \<and>
         (\<exists>es. prefix es (standing_orders (database w)) \<and>
            evaluations (stord_log w') = evaluations (stord_log w) @ map so_name es \<and>
            (r = Inr True \<longrightarrow> es = standing_orders (database w)))"
proof (rule evaluates[OF _ _ due call])
  from mode show "standing_order_mode env \<noteq> Some ''disabled''" by auto
  from mode show "\<not> (standing_order_mode env = Some ''nighttime'' \<and> 8 \<le> tm_hour env now \<and>
    tm_hour env now < 20)" by auto
qed

lemma evaluates_tasks:
  assumes mode: "standing_order_mode env \<noteq> Some ''disabled''"
      "\<not> (standing_order_mode env = Some ''nighttime'' \<and> 8 \<le> tm_hour env now \<and> tm_hour env now < 20)"
    and due: "\<not> now - last_check w < MIN_STANDING_ORDER_INTERVAL"
    and call: "maybe_launch_copies env now w = (r, w')"
  shows "case tasks_after_orders env (database w) (standing_orders (database w)) (tasks w) of
           Some ts \<Rightarrow> r = Inr True \<and> tasks w' = ts
         | None \<Rightarrow> (\<exists>e. r = Inl e)"
proof -
  define md where "md = (case standing_order_mode env of None \<Rightarrow> ''normal'' | Some m \<Rightarrow> m)"
  define w0 where "w0 = (if md \<noteq> ''nighttime'' \<and> md \<noteq> ''normal''
                          then stord_logger (LogUnrecognizedMode md) w else w)"
  let ?w1 = "(stord_logger LogRunningSearches w0)\<lparr>last_check := now\<rparr>"
  obtain r1 w1 where ev: "evaluate_orders env (standing_orders (database ?w1)) ?w1 = (r1, w1)"
    by (cases "evaluate_orders env (standing_orders (database ?w1)) ?w1")
  from mode have m: "md \<noteq> ''disabled''"
    "\<not> (md = ''nighttime'' \<and> 8 \<le> tm_hour env now \<and> tm_hour env now < 20)"
    by (auto simp: md_def split: option.splits)
  from call due ev m have res: "w' = w1" "r = (case r1 of Some e \<Rightarrow> Inl e | None \<Rightarrow> Inr True)"
    by (auto simp: maybe_launch_copies_def md_def[symmetric] w0_def[symmetric] Let_def
             split: option.splits)
  have w0: "database ?w1 = database w" "tasks ?w1 = tasks w"
    by (simp_all add: w0_def)
  from evaluate_orders_tasks[OF ev] res show ?thesis
    unfolding w0 by (auto split: option.splits)
qed

lemma ex_stripped: "join_lines (filter_comments ''uv-files'') = ''uv-files''"
  by code_simp

lemma ex_compile:
  "compile_search (json_loads (ex_server_env m)) t ''uv-files'' ''files'' =
     Inr (FilesQuery (SqlAnd [Like (Column ''name'') ''%.uv'']))"
  by (simp add: compile_search_def ex_stripped ex_server_env_def compile_def do_str_matches_def
        file_table)

lemma ex_bad_stripped: "join_lines (filter_comments ''not json'') = ''not json''"
  by code_simp

lemma ex_default_differs:
  "join_lines (filter_comments default_search) \<noteq> ''not json''"
  "join_lines (filter_comments default_search) \<noteq> ''uv-files''"
  by code_simp+

lemma ex_compile_bad:
  "compile_search (json_loads (ex_server_env m)) t ''not json'' ''files'' = Inl (ServerErr CantParseJSON)"
  by (simp add: compile_search_def ex_bad_stripped ex_server_env_def ex_default_differs[symmetric])

lemma ex_compile_default:
  "compile_search (json_loads (ex_server_env m)) t default_search ''files'' =
     Inr (FilesQuery (SqlAnd [Like (Column ''name'') ''any-file-named-like-%-this'',
                              CreateTimeGt (t - 86400 * 14)]))"
  by (simp add: compile_search_def ex_server_env_def ex_default_differs compile_def
        do_str_matches_def file_table FileSearchCompiler_own_def do_not_older_than_def)

lemma already_done_iff:
  "f \<in> set fs \<Longrightarrow>
     (file_name f \<in> set (concat (map (\<lambda>f. concat (map (\<lambda>ev.
          if file_event_name ev = file_name f \<and> file_event_type ev = ty
          then [file_name f] else []) evs)) fs))) =
     (\<exists>ev \<in> set evs. file_event_name ev = file_name f \<and> file_event_type ev = ty)"
  by (auto split: if_splits)

lemma already_launched_iff:
  "(n \<in> set (concat (map (\<lambda>t.
        case t of
          Uploader u \<Rightarrow>
            if Some nm = standing_order_name u \<and> exception u = None
            then [basename (store_path u)] else []
        | OtherTask \<Rightarrow> []) ts))) =
   (\<exists>t \<in> set ts.
      case t of
        Uploader u \<Rightarrow>
          standing_order_name u = Some nm \<and> exception u = None \<and> basename (store_path u) = n
      | OtherTask \<Rightarrow> False)"
  by (induction ts) (auto split: BackgroundTask.splits if_splits)

lemma query_files_subset: "set (query_files db q) \<subseteq> set (files db)"
  by (auto simp: query_files_def split: query.splits)

text \<open>
  C8. \<open>get_files_to_copy\<close> raises what compiling the order's search raises, and else
  yields exactly the rows of the compiled search that bear no event of the type
  \<open>standing_order_succeeded:\<close> followed by the order's name, and whose name is not the
  basename of the \<open>store_path\<close> of an uploader task of this order whose exception is
  \<open>None\<close>; so a file whose tasks all ended in an exception is yielded again.
\<close>

theorem get_files_to_copy_exact:
  "get_files_to_copy env db the_tasks self =
     (case compile_search (json_loads env) (utcnow env) (so_search self) ''files'' of
        Inl e \<Rightarrow> Inl e
      | Inr q \<Rightarrow>
          Inr (filter
                 (\<lambda>f. \<not> (\<exists>ev \<in> set (file_events db).
                            file_event_name ev = file_name f \<and>
                            file_event_type ev = ''standing_order_succeeded:'' @ so_name self) \<and>
                      \<not> (\<exists>t \<in> set the_tasks.
                            case t of
                              Uploader u \<Rightarrow>
                                standing_order_name u = Some (so_name self) \<and>
                                exception u = None \<and> basename (store_path u) = file_name f
                            | OtherTask \<Rightarrow> False))
                 (query_files db q)))"
proof (cases "compile_search (json_loads env) (utcnow env) (so_search self) ''files''")
  case (Inl e)
  then show ?thesis by (simp add: get_files_to_copy_def)
next
  case (Inr q)
  have "f \<in> set (files db)" if "f \<in> set (query_files db q)" for f
    using that query_files_subset[of db q] by blast
  then show ?thesis
    unfolding get_files_to_copy_def Inr Let_def sum.case filter_filter already_launched_iff
      event_type_def
    by (auto intro!: filter_cong simp: already_done_iff)
qed

theorem get_files_to_copy_exact_witness:
  "get_files_to_copy (ex_server_env None) ex_db ex_tasks ex_order = Inr [ex_file ''a.uv'']"
  using get_files_to_copy_exact[of "ex_server_env None" ex_db ex_tasks ex_order]
  by (auto simp: ex_order_def ex_compile query_files_def File_holds_def File_attr_def ex_db_def
        ex_tasks_def ex_file_def basename_def)

lemma ex_files_to_copy:
  "get_files_to_copy (ex_server_env m) ex_db ex_tasks ex_order = Inr [ex_file ''a.uv'']"
  by (simp add: get_files_to_copy_def ex_order_def ex_compile query_files_def File_holds_def
        File_attr_def ex_db_def ex_tasks_def ex_file_def basename_def event_type_def Let_def)

lemma ex_files_to_copy_later:
  "get_files_to_copy (ex_server_env m) ex_db
     (ex_tasks @ [Uploader \<lparr>store_path = ''/data/a.uv'', standing_order_name = Some ''to-B'',
                    exception = None\<rparr>]) ex_order = Inr []"
  by (simp add: get_files_to_copy_def ex_order_def ex_compile query_files_def File_holds_def
        File_attr_def ex_db_def ex_tasks_def ex_file_def basename_def event_type_def Let_def)

lemma ex_launch:
  "launch_each (ex_server_env m) ex_db ex_order [ex_file ''a.uv''] ts =
     ts @ [Uploader \<lparr>store_path = ''/data/a.uv'', standing_order_name = Some ''to-B'',
              exception = None\<rparr>]"
  by (simp add: launch_each_def ex_server_env_def ex_order_def ex_file_def)

text \<open>
  C5. In normal mode, let a first call at \<open>t1\<close> not be rate limited itself, a second call
  come at \<open>t2\<close> less than the minimum interval after \<open>t1\<close>, and a third at \<open>t3\<close>, at
  least the interval after \<open>t1\<close>. The first call runs the searches once and sets
  \<open>last_check\<close> to \<open>t1\<close>; the second returns \<open>False\<close> and leaves the whole state as it
  is; the third runs the searches a second time. A call that runs the searches evaluates
  the persisted standing orders: it returns \<open>True\<close> with the tasks that launching a copy
  of every file of every order's \<open>get_files_to_copy\<close> leaves, or the search of an order
  raises; a call that returns \<open>True\<close> has evaluated every persisted standing order, in
  order.
\<close>

theorem rate_limit_three_calls:
  assumes mode:
      "standing_order_mode env1 = None \<or> standing_order_mode env1 = Some ''normal''"
      "standing_order_mode env3 = None \<or> standing_order_mode env3 = Some ''normal''"
    and first: "MIN_STANDING_ORDER_INTERVAL \<le> t1 - last_check w0"
    and close: "t2 - t1 < MIN_STANDING_ORDER_INTERVAL"
    and later: "MIN_STANDING_ORDER_INTERVAL \<le> t3 - t1"
    and call1: "maybe_launch_copies env1 t1 w0 = (r1, w1)"
    and call2: "maybe_launch_copies env2 t2 w1 = (r2, w2)"
    and call3: "maybe_launch_copies env3 t3 w2 = (r3, w3)"
  shows "r1 \<noteq> Inr False \<and> last_check w1 = t1 \<and>
         searches_run (stord_log w1) = searches_run (stord_log w0) + 1 \<and>
         (r1 = Inr True \<longrightarrow>
            evaluations (stord_log w1) =
              evaluations (stord_log w0) @ map so_name (standing_orders (database w0))) \<and>
         r2 = Inr False \<and> w2 = w1 \<and>
         r3 \<noteq> Inr False \<and> last_check w3 = t3 \<and>
         searches_run (stord_log w3) = searches_run (stord_log w0) + 2 \<and>
         (r3 = Inr True \<longrightarrow>
            evaluations (stord_log w3) =
              evaluations (stord_log w1) @ map so_name (standing_orders (database w0))) \<and>
         database w1 = database w0 \<and> database w3 = database w0 \<and>
         (case tasks_after_orders env1 (database w0) (standing_orders (database w0)) (tasks w0) of
            Some ts \<Rightarrow> r1 = Inr True \<and> tasks w1 = ts
          | None \<Rightarrow> (\<exists>e. r1 = Inl e)) \<and>
         (case tasks_after_orders env3 (database w0) (standing_orders (database w0)) (tasks w1) of
            Some ts \<Rightarrow> r3 = Inr True \<and> tasks w3 = ts
          | None \<Rightarrow> (\<exists>e. r3 = Inl e))"
proof -
  from first have due1: "\<not> t1 - last_check w0 < MIN_STANDING_ORDER_INTERVAL" by simp
  note n1 = normal_evaluates[OF mode(1) due1 call1]
  from n1 close have "t2 - last_check w1 < MIN_STANDING_ORDER_INTERVAL" by simp
  from rate_limited[where env = env2, OF this] call2 have two: "r2 = Inr False" "w2 = w1" by simp_all
  from n1 later two have due3: "\<not> t3 - last_check w2 < MIN_STANDING_ORDER_INTERVAL" by simp
  note n3 = normal_evaluates[OF mode(2) due3 call3]
  from mode have m1: "standing_order_mode env1 \<noteq> Some ''disabled''"
    "\<not> (standing_order_mode env1 = Some ''nighttime'' \<and> 8 \<le> tm_hour env1 t1 \<and> tm_hour env1 t1 < 20)"
    and m3: "standing_order_mode env3 \<noteq> Some ''disabled''"
    "\<not> (standing_order_mode env3 = Some ''nighttime'' \<and> 8 \<le> tm_hour env3 t3 \<and> tm_hour env3 t3 < 20)"
    by auto
  from n1 have db1: "database w1 = database w0" by blast
  from n3 two db1 have db3: "database w3 = database w0" by simp
  note e1 = evaluates_tasks[OF m1 due1 call1]
  from evaluates_tasks[OF m3 due3 call3] two db1
  have e3: "case tasks_after_orders env3 (database w0) (standing_orders (database w0)) (tasks w1) of
            Some ts \<Rightarrow> r3 = Inr True \<and> tasks w3 = ts
          | None \<Rightarrow> (\<exists>e. r3 = Inl e)" by simp
  from n1 n3 two have
    "r1 \<noteq> Inr False \<and> last_check w1 = t1 \<and>
         searches_run (stord_log w1) = searches_run (stord_log w0) + 1 \<and>
         (r1 = Inr True \<longrightarrow>
            evaluations (stord_log w1) =
              evaluations (stord_log w0) @ map so_name (standing_orders (database w0))) \<and>
         r2 = Inr False \<and> w2 = w1 \<and>
         r3 \<noteq> Inr False \<and> last_check w3 = t3 \<and>
         searches_run (stord_log w3) = searches_run (stord_log w0) + 2 \<and>
         (r3 = Inr True \<longrightarrow>
            evaluations (stord_log w3) =
              evaluations (stord_log w1) @ map so_name (standing_orders (database w0)))"
    by auto
  with db1 db3 e1 e3 show ?thesis by blast
qed

theorem rate_limit_three_calls_witness:
  "(let env = ex_server_env None;
        (r1, w1) = maybe_launch_copies env 1700000000 ex_world;
        (r2, w2) = maybe_launch_copies env 1700000600 w1;
        (r3, w3) = maybe_launch_copies env 1700001200 w2
    in r1 = Inr True \<and> r2 = Inr False \<and> w2 = w1 \<and> r3 = Inr True \<and>
       searches_run (stord_log w1) = 1 \<and> searches_run (stord_log w3) = 2 \<and>
       evaluations (stord_log w1) = [''to-B''] \<and>
       evaluations (stord_log w3) = [''to-B'', ''to-B''] \<and>
       last_check w1 = 1700000000 \<and> last_check w3 = 1700001200 \<and>
       tasks w1 = ex_tasks @ [Uploader \<lparr>store_path = ''/data/a.uv'',
                                standing_order_name = Some ''to-B'', exception = None\<rparr>] \<and>
       tasks w3 = tasks w1)"
proof -
  let ?env = "ex_server_env None"
  obtain r1 w1 where c1: "maybe_launch_copies ?env 1700000000 ex_world = (r1, w1)"
    by (cases "maybe_launch_copies ?env 1700000000 ex_world")
  obtain r2 w2 where c2: "maybe_launch_copies ?env 1700000600 w1 = (r2, w2)"
    by (cases "maybe_launch_copies ?env 1700000600 w1")
  obtain r3 w3 where c3: "maybe_launch_copies ?env 1700001200 w2 = (r3, w3)"
    by (cases "maybe_launch_copies ?env 1700001200 w2")
  have mode: "standing_order_mode ?env = None \<or> standing_order_mode ?env = Some ''normal''"
    by (simp add: ex_server_env_def)
  have first: "MIN_STANDING_ORDER_INTERVAL \<le> 1700000000 - last_check ex_world"
    by (simp add: MIN_STANDING_ORDER_INTERVAL_def ex_world_def)
  have close: "(1700000600::real) - 1700000000 < MIN_STANDING_ORDER_INTERVAL"
    by (simp add: MIN_STANDING_ORDER_INTERVAL_def)
  have later: "MIN_STANDING_ORDER_INTERVAL \<le> (1700001200::real) - 1700000000"
    by (simp add: MIN_STANDING_ORDER_INTERVAL_def)
  have w0: "searches_run (stord_log ex_world) = 0" "evaluations (stord_log ex_world) = []"
    "database ex_world = ex_db" "tasks ex_world = ex_tasks" "standing_orders ex_db = [ex_order]"
    by (simp_all add: ex_world_def ex_db_def)
  let ?new = "ex_tasks @ [Uploader \<lparr>store_path = ''/data/a.uv'',
                            standing_order_name = Some ''to-B'', exception = None\<rparr>]"
  have t1: "tasks_after_orders ?env ex_db [ex_order] ex_tasks = Some ?new"
    by (simp add: ex_files_to_copy ex_launch)
  have t3: "tasks_after_orders ?env ex_db [ex_order] ?new = Some ?new"
    by (simp add: ex_files_to_copy_later launch_each_def)
  note th = rate_limit_three_calls[OF mode mode first close later c1 c2 c3]
  from th have
    "case tasks_after_orders ?env (database ex_world) (standing_orders (database ex_world))
            (tasks ex_world) of
       Some ts \<Rightarrow> r1 = Inr True \<and> tasks w1 = ts
     | None \<Rightarrow> (\<exists>e. r1 = Inl e)" by blast
  then have r1: "r1 = Inr True" "tasks w1 = ?new" unfolding w0 t1 by simp_all
  from th have
    "case tasks_after_orders ?env (database ex_world) (standing_orders (database ex_world))
            (tasks w1) of
       Some ts \<Rightarrow> r3 = Inr True \<and> tasks w3 = ts
     | None \<Rightarrow> (\<exists>e. r3 = Inl e)" by blast
  then have r3: "r3 = Inr True" "tasks w3 = ?new" unfolding w0 r1 t3 by simp_all
  from th have two: "r2 = Inr False" "w2 = w1" by blast+
  from th have lc: "last_check w1 = 1700000000" "last_check w3 = 1700001200" by blast+
  from th have sr: "searches_run (stord_log w1) = searches_run (stord_log ex_world) + 1"
    "searches_run (stord_log w3) = searches_run (stord_log ex_world) + 2" by blast+
  from th r1 have ev1: "evaluations (stord_log w1) =
      evaluations (stord_log ex_world) @ map so_name (standing_orders (database ex_world))"
    by blast
  from th r3 have ev3: "evaluations (stord_log w3) =
      evaluations (stord_log w1) @ map so_name (standing_orders (database ex_world))"
    by blast
  have nm: "so_name ex_order = ''to-B''" by (simp add: ex_order_def)
  from ev1 have ev1': "evaluations (stord_log w1) = [''to-B'']" by (simp add: w0 nm)
  from ev3 ev1' have ev3': "evaluations (stord_log w3) = [''to-B'', ''to-B'']" by (simp add: w0 nm)
  from r1 r3 two lc sr ev1' ev3' c1 c2 c3 show ?thesis by (simp add: Let_def w0)
qed

text \<open>
  C10. The claim: in mode \<open>disabled\<close>, or \<open>nighttime\<close> between 8 and 20 hours, the call
  returns \<open>True\<close>. The rate limit is tested before the mode: in mode \<open>nighttime\<close> a call
  at hour 7 evaluates the orders, and a call 600 seconds later, at hour 8, returns
  \<open>False\<close>.
\<close>

theorem mode_skip_rate_limited_returns_False:
  "(let env = ex_server_env (Some ''nighttime'');
        w1 = snd (maybe_launch_copies env 1700000000 ex_world)
    in tm_hour env 1700000000 = 7 \<and> last_check w1 = 1700000000 \<and>
       tm_hour env 1700000600 = 8 \<and>
       maybe_launch_copies env 1700000600 w1 = (Inr False, w1))"
proof -
  let ?env = "ex_server_env (Some ''nighttime'')"
  let ?w1 = "snd (maybe_launch_copies ?env 1700000000 ex_world)"
  have c1: "maybe_launch_copies ?env 1700000000 ex_world =
              (fst (maybe_launch_copies ?env 1700000000 ex_world), ?w1)" by simp
  have h: "tm_hour ?env 1700000000 = 7" "tm_hour ?env 1700000600 = 8"
    by (simp_all add: ex_server_env_def)
  have m1: "standing_order_mode ?env \<noteq> Some ''disabled''" by (simp add: ex_server_env_def)
  have m2: "\<not> (standing_order_mode ?env = Some ''nighttime'' \<and> 8 \<le> tm_hour ?env 1700000000 \<and>
              tm_hour ?env 1700000000 < 20)" by (simp add: h)
  have due: "\<not> 1700000000 - last_check ex_world < MIN_STANDING_ORDER_INTERVAL"
    by (simp add: MIN_STANDING_ORDER_INTERVAL_def ex_world_def)
  from evaluates[OF m1 m2 due c1] have lc: "last_check ?w1 = 1700000000" by blast
  then have "1700000600 - last_check ?w1 < MIN_STANDING_ORDER_INTERVAL"
    by (simp add: MIN_STANDING_ORDER_INTERVAL_def)
  from rate_limited[where env = ?env, OF this] lc h show ?thesis by (simp add: Let_def)
qed

text \<open>
  C10, as amended. In mode \<open>disabled\<close>, or \<open>nighttime\<close> with the local hour from 8 up to
  20, the call returns \<open>True\<close> when it is not rate limited and \<open>False\<close> when it is; in
  both cases \<open>last_check\<close>, \<open>launch_queued\<close>, the scheduled callbacks, the database and
  the tasks are as before, no order is evaluated and no search is run.
\<close>

theorem mode_skip_leaves_manager:
  assumes "standing_order_mode env = Some ''disabled'' \<or>
           (standing_order_mode env = Some ''nighttime'' \<and>
            8 \<le> tm_hour env now \<and> tm_hour env now < 20)"
  shows "\<exists>w'. maybe_launch_copies env now w =
                 (Inr (\<not> now - last_check w < MIN_STANDING_ORDER_INTERVAL), w') \<and>
           last_check w' = last_check w \<and> launch_queued w' = launch_queued w \<and>
           call_later w' = call_later w \<and> database w' = database w \<and> tasks w' = tasks w \<and>
           evaluations (stord_log w') = evaluations (stord_log w) \<and>
           searches_run (stord_log w') = searches_run (stord_log w)"
  using assms by (auto simp: maybe_launch_copies_def Let_def)

theorem mode_skip_leaves_manager_witness:
  "\<exists>w'. maybe_launch_copies (ex_server_env (Some ''disabled'')) 1700000000 ex_world = (Inr True, w') \<and>
      last_check w' = 0 \<and> launch_queued w' = launch_queued ex_world \<and>
      database w' = ex_db \<and> tasks w' = ex_tasks \<and> evaluations (stord_log w') = [] \<and>
      searches_run (stord_log w') = 0"
proof -
  have m: "standing_order_mode (ex_server_env (Some ''disabled'')) = Some ''disabled'' \<or>
           (standing_order_mode (ex_server_env (Some ''disabled'')) = Some ''nighttime'' \<and>
            8 \<le> tm_hour (ex_server_env (Some ''disabled'')) 1700000000 \<and>
            tm_hour (ex_server_env (Some ''disabled'')) 1700000000 < 20)"
    by (simp add: ex_server_env_def)
  from mode_skip_leaves_manager[OF m, where w = ex_world]
  show ?thesis by (auto simp add: MIN_STANDING_ORDER_INTERVAL_def ex_world_def)
qed

lemma validate_so_id [simp]: "validate env (r\<lparr>so_id := k\<rparr>) = validate env r"
  by (simp add: validate_def)

lemma validate_search:
  "validate env r =
     (case compile_search (json_loads env) (utcnow env) (so_search r) ''files'' of
        Inl e \<Rightarrow> Some e | Inr q \<Rightarrow> None)"
  by (simp add: validate_def)

lemma update_bad_search:
  assumes "compile_search (json_loads env) (utcnow env) new_search ''files'' = Inl e"
  shows "update_standing_order env name new_name new_conn new_search w =
           (\<lparr>flashed = [if find (\<lambda>r. so_name r = name) (standing_orders (database w)) = None
                         then NoSuchStandingOrder name else CannotUpdate name e],
             redirect = ''/standing-orders''\<rparr>, w)"
  using assms by (auto simp: update_standing_order_def validate_search Let_def split: option.splits)

lemma create_bad_search:
  assumes "compile_search (json_loads env) (utcnow env) default_search ''files'' = Inl e"
  shows "create_standing_order env name w =
           (\<lparr>flashed = [CannotCreate name (if name = [] then OrderNameEmpty else e)],
             redirect = ''/standing-orders''\<rparr>, w)"
  using assms by (auto simp: create_standing_order_def validate_search Let_def split: option.splits)

lemma update_keeps_valid:
  assumes "\<forall>r \<in> set (standing_orders (database w)). validate env r = None"
  shows "\<forall>r \<in> set (standing_orders (database (snd (update_standing_order env name new_name
            new_conn new_search w)))). validate env r = None"
  using assms
  by (auto simp: update_standing_order_def commit_changed_order_def Let_def validate_search
        queue_standing_order_copies_def queue_launch_copy_def stord_logger_def
        split: option.splits if_splits)

lemma create_keeps_valid:
  assumes "\<forall>r \<in> set (standing_orders (database w)). validate env r = None"
  shows "\<forall>r \<in> set (standing_orders (database (snd (create_standing_order env name w)))).
           validate env r = None"
  using assms
  by (auto simp: create_standing_order_def commit_new_order_def Let_def validate_search
        split: option.splits if_splits)

text \<open>
  C6. When the new search does not compile, \<open>update_standing_order\<close> leaves the whole
  state as it is and flashes the error (or that there is no such order); when the default
  search does not compile, \<open>create_standing_order\<close> does the same. When the search of every
  persisted order compiles, this is so again after an update and after a creation.
\<close>

theorem uncompilable_search_never_persisted:
  "(\<forall>e. compile_search (json_loads env) (utcnow env) new_search ''files'' = Inl e \<longrightarrow>
      snd (update_standing_order env name new_name new_conn new_search w) = w \<and>
      flashed (fst (update_standing_order env name new_name new_conn new_search w)) =
        [if find (\<lambda>r. so_name r = name) (standing_orders (database w)) = None
         then NoSuchStandingOrder name else CannotUpdate name e]) \<and>
   (\<forall>e. compile_search (json_loads env) (utcnow env) default_search ''files'' = Inl e \<longrightarrow>
      snd (create_standing_order env name w) = w \<and>
      flashed (fst (create_standing_order env name w)) =
        [CannotCreate name (if name = [] then OrderNameEmpty else e)]) \<and>
   ((\<forall>r \<in> set (standing_orders (database w)).
        \<exists>q. compile_search (json_loads env) (utcnow env) (so_search r) ''files'' = Inr q) \<longrightarrow>
    (\<forall>r \<in> set (standing_orders (database
          (snd (update_standing_order env name new_name new_conn new_search w)))).
        \<exists>q. compile_search (json_loads env) (utcnow env) (so_search r) ''files'' = Inr q) \<and>
    (\<forall>r \<in> set (standing_orders (database (snd (create_standing_order env name w)))).
        \<exists>q. compile_search (json_loads env) (utcnow env) (so_search r) ''files'' = Inr q))"
proof (intro conjI allI impI)
  fix e assume "compile_search (json_loads env) (utcnow env) new_search ''files'' = Inl e"
  from update_bad_search[OF this, of name new_name new_conn w]
  show "snd (update_standing_order env name new_name new_conn new_search w) = w"
    and "flashed (fst (update_standing_order env name new_name new_conn new_search w)) =
        [if find (\<lambda>r. so_name r = name) (standing_orders (database w)) = None
         then NoSuchStandingOrder name else CannotUpdate name e]"
    by simp_all
next
  fix e assume "compile_search (json_loads env) (utcnow env) default_search ''files'' = Inl e"
  from create_bad_search[OF this, of name w]
  show "snd (create_standing_order env name w) = w"
    and "flashed (fst (create_standing_order env name w)) =
        [CannotCreate name (if name = [] then OrderNameEmpty else e)]"
    by simp_all
next
  assume "\<forall>r \<in> set (standing_orders (database w)).
        \<exists>q. compile_search (json_loads env) (utcnow env) (so_search r) ''files'' = Inr q"
  then have v: "\<forall>r \<in> set (standing_orders (database w)). validate env r = None"
    by (auto simp: validate_search)
  have iff: "(\<exists>q. compile_search (json_loads env) (utcnow env) (so_search r) ''files'' = Inr q) =
             (validate env r = None)" for r
    by (auto simp: validate_search split: sum.splits)
  show "\<forall>r \<in> set (standing_orders (database
          (snd (update_standing_order env name new_name new_conn new_search w)))).
        \<exists>q. compile_search (json_loads env) (utcnow env) (so_search r) ''files'' = Inr q"
    unfolding iff by (rule update_keeps_valid[OF v])
  show "\<forall>r \<in> set (standing_orders (database (snd (create_standing_order env name w)))).
        \<exists>q. compile_search (json_loads env) (utcnow env) (so_search r) ''files'' = Inr q"
    unfolding iff by (rule create_keeps_valid[OF v])
qed

lemma ex_orders_compile:
  "\<forall>r \<in> set (standing_orders (database ex_world)).
     \<exists>q. compile_search (json_loads (ex_server_env None)) (utcnow (ex_server_env None))
            (so_search r) ''files'' = Inr q"
  by (simp add: ex_world_def ex_db_def ex_order_def ex_compile)

theorem uncompilable_search_never_persisted_witness:
  "compile_search (json_loads (ex_server_env None)) (utcnow (ex_server_env None)) ''not json''
       ''files'' = Inl (ServerErr CantParseJSON) \<and>
   update_standing_order (ex_server_env None) ''to-B'' ''to-C'' ''C'' ''not json'' ex_world =
     (\<lparr>flashed = [CannotUpdate ''to-B'' (ServerErr CantParseJSON)],
       redirect = ''/standing-orders''\<rparr>, ex_world) \<and>
   map (\<lambda>r. isl (compile_search (json_loads (ex_server_env None)) (utcnow (ex_server_env None))
                   (so_search r) ''files''))
     (standing_orders (database
        (snd (update_standing_order (ex_server_env None) ''to-B'' ''to-C'' ''C'' ''uv-files''
                ex_world)))) = [False] \<and>
   map so_name (standing_orders (database
        (snd (update_standing_order (ex_server_env None) ''to-B'' ''to-C'' ''C'' ''uv-files''
                ex_world)))) = [''to-C''] \<and>
   map so_name (standing_orders (database
        (snd (create_standing_order (ex_server_env None) ''to-C'' ex_world)))) =
     [''to-B'', ''to-C'']"
proof -
  let ?env = "ex_server_env None"
  have bad: "compile_search (json_loads ?env) (utcnow ?env) ''not json'' ''files'' = Inl (ServerErr CantParseJSON)"
    by (rule ex_compile_bad)
  have found: "find (\<lambda>r. so_name r = ''to-B'') (standing_orders (database ex_world)) = Some ex_order"
    by (simp add: ex_world_def ex_db_def ex_order_def)
  have redir: "redirect (fst (update_standing_order ?env ''to-B'' ''to-C'' ''C'' ''not json'' ex_world))
      = ''/standing-orders''"
    by (simp add: update_standing_order_def found validate_search bad Let_def)
  from uncompilable_search_never_persisted[of ?env "''not json''" "''to-B''" "''to-C''" "''C''" ex_world]
    bad found
  have a: "snd (update_standing_order ?env ''to-B'' ''to-C'' ''C'' ''not json'' ex_world) = ex_world"
    "flashed (fst (update_standing_order ?env ''to-B'' ''to-C'' ''C'' ''not json'' ex_world)) =
       [CannotUpdate ''to-B'' (ServerErr CantParseJSON)]"
    by simp_all
  with redir have upd:
    "update_standing_order ?env ''to-B'' ''to-C'' ''C'' ''not json'' ex_world =
     (\<lparr>flashed = [CannotUpdate ''to-B'' (ServerErr CantParseJSON)],
       redirect = ''/standing-orders''\<rparr>, ex_world)"
    by (cases "update_standing_order ?env ''to-B'' ''to-C'' ''C'' ''not json'' ex_world")
       (auto intro: Response.equality)
  from uncompilable_search_never_persisted[of ?env "''uv-files''" "''to-B''" "''to-C''" "''C''" ex_world]
    ex_orders_compile
  have inv: "\<forall>r \<in> set (standing_orders (database
        (snd (update_standing_order ?env ''to-B'' ''to-C'' ''C'' ''uv-files'' ex_world)))).
      \<exists>q. compile_search (json_loads ?env) (utcnow ?env) (so_search r) ''files'' = Inr q"
    by blast
  have names: "map so_name (standing_orders (database
        (snd (update_standing_order ?env ''to-B'' ''to-C'' ''C'' ''uv-files'' ex_world)))) = [''to-C'']"
    by (simp add: update_standing_order_def found validate_search ex_compile ex_order_def Let_def
          commit_changed_order_def queue_standing_order_copies_def queue_launch_copy_def
          stord_logger_def ex_world_def ex_db_def)
  have created: "map so_name (standing_orders (database
        (snd (create_standing_order ?env ''to-C'' ex_world)))) = [''to-B'', ''to-C'']"
    by (simp add: create_standing_order_def validate_search ex_compile_default Let_def
          commit_new_order_def ex_world_def ex_db_def ex_order_def)
  from names obtain r where
    one: "standing_orders (database
        (snd (update_standing_order ?env ''to-B'' ''to-C'' ''C'' ''uv-files'' ex_world))) = [r]"
    by auto
  with inv have "\<exists>q. compile_search (json_loads ?env) (utcnow ?env) (so_search r) ''files'' = Inr q"
    by simp
  then have "\<not> isl (compile_search (json_loads ?env) (utcnow ?env) (so_search r) ''files'')"
    by auto
  with one have compiled:
    "map (\<lambda>r. isl (compile_search (json_loads ?env) (utcnow ?env) (so_search r) ''files''))
       (standing_orders (database
          (snd (update_standing_order ?env ''to-B'' ''to-C'' ''C'' ''uv-files'' ex_world)))) = [False]"
    by simp
  from bad upd compiled names created show ?thesis by blast
qed


end
